theory Spec2Isabelle
  imports Complex_Main "HOL-Library.Word"
begin

unbundle bit_operations_syntax

section \<open>The real-time audio session of \<open>src/components/LiveChat.tsx\<close>\<close>

text \<open>
  The component keeps its state in React state variables and in mutable refs, and reacts
  to callbacks of the browser and of the streaming client. The embedding below passes that
  state explicitly: every handler takes the state and returns the state it leaves behind.
  Calls into the browser (stopping a track, closing a context, starting a buffer source)
  are appended to logs kept in the state, so that what a handler did to the devices can be
  read off afterwards.

  Conventions:
  \<^item> a JavaScript string is the list of its UTF-16 code units;
  \<^item> a \<open>Uint8Array\<close> is a list of bytes, an \<open>Int16Array\<close> a list of 16-bit words
    (\<open>sint\<close> reads the signed value);
  \<^item> a JavaScript number is a real. Audio samples are 32-bit floats, each of which is a
    rational; multiplying one by \<open>32768\<close> and dividing a 16-bit integer by \<open>32768\<close>
    are exact in double precision, so the codec is modelled without rounding. \<open>NaN\<close>
    and the infinities have no counterpart here;
  \<^item> an exception is a value of \<open>js_error\<close>.
\<close>

subsection \<open>Strings, bytes and exceptions\<close>

type_synonym jsstring = "16 word list"

type_synonym uint8array = "8 word list"

type_synonym int16array = "16 word list"

datatype js_error = InvalidCharacterError | RangeError | NotSupportedError | TypeError

text \<open>A string literal of the source: its characters as code units.\<close>

definition str :: "string \<Rightarrow> jsstring" where
  "str s = map of_char s"

subsection \<open>Base64: the browser's \<open>btoa\<close> and \<open>atob\<close>\<close>

text \<open>The character of a 6-bit value in the Base64 alphabet \<open>A-Z a-z 0-9 + /\<close>.\<close>

definition b64_code :: "nat \<Rightarrow> nat" where
  "b64_code n =
     (if n < 26 then 65 + n
      else if n < 52 then 97 + (n - 26)
      else if n < 62 then 48 + (n - 52)
      else if n = 62 then 43
      else 47)"

definition b64_char :: "nat \<Rightarrow> 16 word" where
  "b64_char n = of_nat (b64_code n)"

text \<open>The 6-bit value of a character, \<open>None\<close> outside the alphabet.\<close>

definition b64_index :: "16 word \<Rightarrow> nat option" where
  "b64_index c =
     (let k = unat c in
      if 65 \<le> k \<and> k \<le> 90 then Some (k - 65)
      else if 97 \<le> k \<and> k \<le> 122 then Some (k - 97 + 26)
      else if 48 \<le> k \<and> k \<le> 57 then Some (k - 48 + 52)
      else if k = 43 then Some 62
      else if k = 47 then Some 63
      else None)"

text \<open>Three bytes become four characters; a last group of one or two bytes is padded with \<open>=\<close>.\<close>

fun btoa_groups :: "nat list \<Rightarrow> jsstring" where
  "btoa_groups (a # b # c # rest) =
     b64_char (a div 4) # b64_char ((a mod 4) * 16 + b div 16)
       # b64_char ((b mod 16) * 4 + c div 64) # b64_char (c mod 64) # btoa_groups rest"
| "btoa_groups [a, b] =
     [b64_char (a div 4), b64_char ((a mod 4) * 16 + b div 16), b64_char ((b mod 16) * 4), 61]"
| "btoa_groups [a] = [b64_char (a div 4), b64_char ((a mod 4) * 16), 61, 61]"
| "btoa_groups [] = []"

text \<open>\<open>btoa\<close> throws \<open>InvalidCharacterError\<close> on a code unit above \<open>255\<close>.\<close>

definition btoa :: "jsstring \<Rightarrow> js_error + jsstring" where
  "btoa s =
     (if \<exists>c \<in> set s. 255 < unat c then Inl InvalidCharacterError
      else Inr (btoa_groups (map unat s)))"

definition ascii_whitespace :: "16 word \<Rightarrow> bool" where
  "ascii_whitespace c \<longleftrightarrow> c = 9 \<or> c = 10 \<or> c = 12 \<or> c = 13 \<or> c = 32"

text \<open>
  When the length is a multiple of four, one or two \<open>=\<close> at the end are removed.
\<close>

definition strip_padding :: "jsstring \<Rightarrow> jsstring" where
  "strip_padding d =
     (if length d mod 4 = 0 \<and> d \<noteq> [] \<and> last d = 61 then
        (if butlast d \<noteq> [] \<and> last (butlast d) = 61 then butlast (butlast d) else butlast d)
      else d)"

text \<open>
  Four 6-bit values become three bytes; of a last group of two values the low four bits
  are dropped, of a group of three the low two bits.
\<close>

fun atob_groups :: "nat list \<Rightarrow> jsstring" where
  "atob_groups (a # b # c # d # rest) =
     of_nat (a * 4 + b div 16) # of_nat ((b mod 16) * 16 + c div 4)
       # of_nat ((c mod 4) * 64 + d) # atob_groups rest"
| "atob_groups [a, b, c] = [of_nat (a * 4 + b div 16), of_nat ((b mod 16) * 16 + c div 4)]"
| "atob_groups [a, b] = [of_nat (a * 4 + b div 16)]"
| "atob_groups [a] = []"
| "atob_groups [] = []"

text \<open>
  \<open>atob\<close> removes ASCII whitespace and the padding, and throws
  \<open>InvalidCharacterError\<close> when the rest has a length of \<open>1\<close> modulo \<open>4\<close> or holds a
  character outside the alphabet.
\<close>

definition atob :: "jsstring \<Rightarrow> js_error + jsstring" where
  "atob s =
     (let d = strip_padding (filter (\<lambda>c. \<not> ascii_whitespace c) s) in
      if length d mod 4 = 1 then Inl InvalidCharacterError
      else if \<exists>c \<in> set d. b64_index c = None then Inl InvalidCharacterError
      else Inr (atob_groups (map (\<lambda>c. the (b64_index c)) d)))"

subsection \<open>The audio helper functions\<close>

text \<open>
  \<open>encode\<close>: every byte becomes one character (\<open>String.fromCharCode\<close>), and the
  resulting binary string goes through \<open>btoa\<close>.
\<close>

definition encode :: "uint8array \<Rightarrow> js_error + jsstring" where
  "encode bytes = btoa (map ucast bytes)"

text \<open>
  \<open>decode\<close>: \<open>atob\<close>, then every character code is stored into a \<open>Uint8Array\<close>
  (which keeps the low eight bits).
\<close>

definition decode :: "jsstring \<Rightarrow> js_error + uint8array" where
  "decode base64 =
     (case atob base64 of
        Inl e \<Rightarrow> Inl e
      | Inr binaryString \<Rightarrow> Inr (map ucast binaryString))"

text \<open>Rounding towards zero, the first step of storing a number into an integer array.\<close>

definition js_trunc :: "real \<Rightarrow> int" where
  "js_trunc x = (if 0 \<le> x then \<lfloor>x\<rfloor> else \<lceil>x\<rceil>)"

text \<open>
  Storing a number into an \<open>Int16Array\<close>: truncate, then keep the low sixteen bits.
  Nothing is clamped.
\<close>

definition ToInt16 :: "real \<Rightarrow> 16 word" where
  "ToInt16 x = word_of_int (js_trunc x)"

text \<open>
  \<open>new Uint8Array(int16.buffer)\<close>: the same memory read bytewise, low byte first.
\<close>

definition int16_bytes :: "16 word \<Rightarrow> uint8array" where
  "int16_bytes w = [ucast w, ucast (drop_bit 8 w)]"

definition Uint8Array_of_buffer :: "int16array \<Rightarrow> uint8array" where
  "Uint8Array_of_buffer ws = concat (map int16_bytes ws)"

text \<open>
  \<open>new Int16Array(data.buffer)\<close>: pairs of bytes read as 16-bit words, low byte
  first. A buffer of odd length makes the constructor throw \<open>RangeError\<close>.
\<close>

fun int16_pairs :: "uint8array \<Rightarrow> int16array" where
  "int16_pairs (lo # hi # rest) = (ucast lo OR push_bit 8 (ucast hi)) # int16_pairs rest"
| "int16_pairs [lo] = []"
| "int16_pairs [] = []"

definition Int16Array_of_buffer :: "uint8array \<Rightarrow> js_error + int16array" where
  "Int16Array_of_buffer bytes =
     (if odd (length bytes) then Inl RangeError else Inr (int16_pairs bytes))"

record blob =
  blob_data :: jsstring
  mimeType :: jsstring

text \<open>\<open>createBlob\<close>: every sample times \<open>32768\<close> is stored into an \<open>Int16Array\<close>.\<close>

definition createBlob :: "real list \<Rightarrow> js_error + blob" where
  "createBlob data =
     (let int16 = map (\<lambda>x. ToInt16 (x * 32768)) data in
      case encode (Uint8Array_of_buffer int16) of
        Inl e \<Rightarrow> Inl e
      | Inr b \<Rightarrow> Inr \<lparr>blob_data = b, mimeType = str ''audio/pcm;rate=16000''\<rparr>)"

record audio_buffer =
  sampleRate :: nat
  frames :: nat
  channels :: "real list list"

text \<open>The duration of a buffer in seconds: its length over its sample rate.\<close>

definition duration :: "audio_buffer \<Rightarrow> real" where
  "duration b = real (frames b) / real (sampleRate b)"

text \<open>
  \<open>decodeAudioData\<close>. \<open>createBuffer\<close> takes the frame count as an unsigned integer
  (a fractional \<open>dataInt16.length / numChannels\<close> is truncated) and throws
  \<open>NotSupportedError\<close> when the channel count or the frame count is zero. Channel
  \<open>channel\<close> receives the samples at \<open>i * numChannels + channel\<close>, each divided by
  \<open>32768\<close>. When the division leaves a fraction the source's loop runs one index past
  the buffer, where a typed array ignores the write.
\<close>

definition decodeAudioData :: "uint8array \<Rightarrow> nat \<Rightarrow> nat \<Rightarrow> js_error + audio_buffer" where
  "decodeAudioData data rate numChannels =
     (case Int16Array_of_buffer data of
        Inl e \<Rightarrow> Inl e
      | Inr dataInt16 \<Rightarrow>
          (let frameCount = length dataInt16 div numChannels in
           if numChannels = 0 \<or> frameCount = 0 then Inl NotSupportedError
           else Inr \<lparr>sampleRate = rate, frames = frameCount,
                  channels =
                    map (\<lambda>channel.
                          map (\<lambda>i. real_of_int (sint (dataInt16 ! (i * numChannels + channel))) / 32768)
                            [0..<frameCount])
                      [0..<numChannels]\<rparr>))"

subsection \<open>The state of the component\<close>

text \<open>
  Browser objects (tracks, audio contexts, nodes, the live session) are told apart by a
  handle. \<open>fresh\<close> is the next unused handle; it stands for object identity and has no
  counterpart in the source.
\<close>

type_synonym handle = nat

datatype speaker = User | Model

record transcript_entry =
  speaker :: speaker
  entry_text :: jsstring

text \<open>The calls the component makes on the devices and on the client, in order.\<close>

datatype device_call =
    TrackStop handle
  | NodeDisconnect handle
  | ContextClose handle
  | SourceStart handle real audio_buffer
  | SourceStop handle
  | Connect handle
  | SessionClose handle
  | SendRealtimeInput handle blob

text \<open>
  The fields are the state variables and refs of the component:
  \<open>audioContextRefs.current.{input, output, processor, source}\<close> are \<open>ctx_input\<close>,
  \<open>ctx_output\<close>, \<open>ctx_processor\<close>, \<open>ctx_source\<close>;
  \<open>outputPlayback.current.{nextStartTime, sources}\<close> are \<open>nextStartTime\<close> and
  \<open>sources\<close> (a JavaScript \<open>Set\<close>, kept in insertion order);
  \<open>transcriptionRefs.current.{currentInput, currentOutput}\<close> are \<open>currentInput\<close>
  and \<open>currentOutput\<close>. A microphone stream is the list of its tracks.
\<close>

record session_state =
  isSessionActive :: bool
  statusMessage :: jsstring
  error :: "jsstring option"
  transcriptionHistory :: "transcript_entry list"
  sessionPromiseRef :: "handle option"
  streamRef :: "handle list option"
  ctx_input :: "handle option"
  ctx_output :: "handle option"
  ctx_processor :: "handle option"
  ctx_source :: "handle option"
  nextStartTime :: real
  sources :: "handle list"
  currentInput :: jsstring
  currentOutput :: jsstring
  aiRef :: "handle option"
  calls :: "device_call list"
  fresh :: handle

text \<open>The state when the component is mounted.\<close>

definition initial_state :: session_state where
  "initial_state =
     \<lparr>isSessionActive = False,
      statusMessage = str ''Click Start to begin conversation.'',
      error = None,
      transcriptionHistory = [],
      sessionPromiseRef = None,
      streamRef = None,
      ctx_input = None, ctx_output = None, ctx_processor = None, ctx_source = None,
      nextStartTime = 0, sources = [],
      currentInput = [], currentOutput = [],
      aiRef = None,
      calls = [],
      fresh = 0\<rparr>"

subsection \<open>Stopping\<close>

definition cleanup :: "session_state \<Rightarrow> session_state" where
  "cleanup s0 =
     (let s1 = (case streamRef s0 of
                  None \<Rightarrow> s0
                | Some tracks \<Rightarrow> s0\<lparr>calls := calls s0 @ map TrackStop tracks, streamRef := None\<rparr>);
          s2 = (case ctx_processor s1 of
                  None \<Rightarrow> s1
                | Some p \<Rightarrow> s1\<lparr>calls := calls s1 @ [NodeDisconnect p], ctx_processor := None\<rparr>);
          s3 = (case ctx_source s2 of
                  None \<Rightarrow> s2
                | Some n \<Rightarrow> s2\<lparr>calls := calls s2 @ [NodeDisconnect n], ctx_source := None\<rparr>);
          s4 = (case ctx_input s3 of
                  None \<Rightarrow> s3
                | Some c \<Rightarrow> s3\<lparr>calls := calls s3 @ [ContextClose c], ctx_input := None\<rparr>);
          s5 = (case ctx_output s4 of
                  None \<Rightarrow> s4
                | Some c \<Rightarrow> s4\<lparr>calls := calls s4 @ [ContextClose c], ctx_output := None\<rparr>)
      in s5\<lparr>calls := calls s5 @ map SourceStop (sources s5),
            sources := [],
            isSessionActive := False,
            statusMessage := str ''Session ended. Click Start to begin again.''\<rparr>)"

text \<open>
  \<open>handleStop\<close> registers \<open>session.close()\<close> as a callback on the connection promise
  and clears the ref; the callback runs after \<open>cleanup\<close> has returned, so the close is
  the last call of a stop. (It runs once the promise is resolved; the log records it where
  it is registered to run.)
\<close>

definition handleStop :: "session_state \<Rightarrow> session_state" where
  "handleStop s =
     (case sessionPromiseRef s of
        None \<Rightarrow> cleanup s
      | Some session \<Rightarrow>
          (let s1 = cleanup (s\<lparr>sessionPromiseRef := None\<rparr>)
           in s1\<lparr>calls := calls s1 @ [SessionClose session]\<rparr>))"

subsection \<open>Starting\<close>

text \<open>
  \<open>getUserMedia\<close> is the outcome of asking for the microphone: an exception, or the
  tracks of the stream. Whatever the exception, the handler reports a denial and returns.
\<close>

definition handleStart :: "js_error + handle list \<Rightarrow> session_state \<Rightarrow> session_state" where
  "handleStart getUserMedia s0 =
     (let s1 = s0\<lparr>error := None, transcriptionHistory := [],
                  statusMessage := str ''Requesting microphone access...''\<rparr>
      in case getUserMedia of
           Inl err \<Rightarrow>
             s1\<lparr>error := Some (str ''Microphone access denied. Please allow microphone access in your browser settings.''),
                statusMessage := str ''Microphone access denied.''\<rparr>
         | Inr tracks \<Rightarrow>
             (let s2 = s1\<lparr>streamRef := Some tracks\<rparr>;
                  s3 = (case aiRef s2 of
                          None \<Rightarrow> s2\<lparr>aiRef := Some (fresh s2), fresh := fresh s2 + 1\<rparr>
                        | Some ai \<Rightarrow> s2);
                  s4 = s3\<lparr>ctx_input := Some (fresh s3), ctx_output := Some (fresh s3 + 1),
                          fresh := fresh s3 + 2, nextStartTime := 0\<rparr>;
                  s5 = s4\<lparr>isSessionActive := True, statusMessage := str ''Connecting to Gemini...''\<rparr>
              in s5\<lparr>sessionPromiseRef := Some (fresh s5),
                    calls := calls s5 @ [Connect (fresh s5)],
                    fresh := fresh s5 + 1\<rparr>))"

subsection \<open>The callbacks of the live session\<close>

text \<open>
  A handler that can throw returns the exception, if any, together with the state it
  leaves behind: what it assigned before throwing stays assigned.
\<close>

definition onopen :: "session_state \<Rightarrow> js_error option \<times> session_state" where
  "onopen s0 =
     (let s1 = s0\<lparr>statusMessage := str ''Connected. Start speaking...''\<rparr>
      in case (ctx_input s1, streamRef s1) of
           (Some input, Some stream) \<Rightarrow>
             (None, s1\<lparr>ctx_source := Some (fresh s1), ctx_processor := Some (fresh s1 + 1),
                       fresh := fresh s1 + 2\<rparr>)
         | _ \<Rightarrow> (Some TypeError, s1))"

definition onaudioprocess :: "real list \<Rightarrow> session_state \<Rightarrow> js_error option \<times> session_state" where
  "onaudioprocess inputData s =
     (case createBlob inputData of
        Inl e \<Rightarrow> (Some e, s)
      | Inr pcmBlob \<Rightarrow>
          (case sessionPromiseRef s of
             None \<Rightarrow> (None, s)
           | Some session \<Rightarrow> (None, s\<lparr>calls := calls s @ [SendRealtimeInput session pcmBlob]\<rparr>)))"

text \<open>
  The parts of a server message the handler reads. A transcription object may lack its
  \<open>text\<close>; appending \<open>undefined\<close> to a string appends the word.
\<close>

record server_message =
  inputTranscription :: "jsstring option option"
  outputTranscription :: "jsstring option option"
  turnComplete :: bool
  audioData :: "jsstring option"
  interrupted :: bool

definition transcription_text :: "jsstring option option \<Rightarrow> jsstring" where
  "transcription_text tr =
     (case tr of
        None \<Rightarrow> []
      | Some None \<Rightarrow> str ''undefined''
      | Some (Some t) \<Rightarrow> t)"

text \<open>The characters that \<open>trim\<close> removes: white space and line terminators.\<close>

definition js_whitespace :: "16 word \<Rightarrow> bool" where
  "js_whitespace c =
     (let k = unat c in
      k = 9 \<or> k = 10 \<or> k = 11 \<or> k = 12 \<or> k = 13 \<or> k = 32 \<or> k = 160 \<or> k = 5760
      \<or> (8192 \<le> k \<and> k \<le> 8202) \<or> k = 8232 \<or> k = 8233 \<or> k = 8239 \<or> k = 8287
      \<or> k = 12288 \<or> k = 65279)"

text \<open>\<open>s.trim()\<close> is the empty string, which a condition takes for false.\<close>

definition blank :: "jsstring \<Rightarrow> bool" where
  "blank s = list_all js_whitespace s"

definition handle_transcription :: "server_message \<Rightarrow> session_state \<Rightarrow> session_state" where
  "handle_transcription m s =
     s\<lparr>currentInput := currentInput s @ transcription_text (inputTranscription m),
       currentOutput := currentOutput s @ transcription_text (outputTranscription m)\<rparr>"

definition handle_turnComplete :: "session_state \<Rightarrow> session_state" where
  "handle_turnComplete s =
     (let fullInput = currentInput s;
          fullOutput = currentOutput s;
          h1 = (if blank fullInput then transcriptionHistory s
                else transcriptionHistory s @ [\<lparr>speaker = User, entry_text = fullInput\<rparr>]);
          h2 = (if blank fullOutput then h1
                else h1 @ [\<lparr>speaker = Model, entry_text = fullOutput\<rparr>])
      in s\<lparr>transcriptionHistory := h2, currentInput := [], currentOutput := []\<rparr>)"

text \<open>
  The audio part, at device time \<open>now\<close> (\<open>outputCtx.currentTime\<close>). The clock is moved
  to \<open>max nextStartTime now\<close> before the fragment is decoded, so it stays moved when
  decoding throws.
\<close>

definition handle_audio :: "real \<Rightarrow> jsstring \<Rightarrow> session_state \<Rightarrow> js_error option \<times> session_state" where
  "handle_audio now audio s0 =
     (case ctx_output s0 of
        None \<Rightarrow> (Some TypeError, s0)
      | Some outputCtx \<Rightarrow>
          (let s1 = s0\<lparr>nextStartTime := max (nextStartTime s0) now\<rparr>
           in case decode audio of
                Inl e \<Rightarrow> (Some e, s1)
              | Inr bytes \<Rightarrow>
                  (case decodeAudioData bytes 24000 1 of
                     Inl e \<Rightarrow> (Some e, s1)
                   | Inr audioBuffer \<Rightarrow>
                       (let source = fresh s1
                        in (None,
                            s1\<lparr>calls := calls s1 @ [SourceStart source (nextStartTime s1) audioBuffer],
                               nextStartTime := nextStartTime s1 + duration audioBuffer,
                               sources := sources s1 @ [source],
                               fresh := fresh s1 + 1\<rparr>)))))"

definition handle_interrupted :: "session_state \<Rightarrow> session_state" where
  "handle_interrupted s =
     s\<lparr>calls := calls s @ map SourceStop (sources s), sources := [], nextStartTime := 0\<rparr>"

definition onmessage :: "real \<Rightarrow> server_message \<Rightarrow> session_state \<Rightarrow> js_error option \<times> session_state" where
  "onmessage now message s0 =
     (let s1 = handle_transcription message s0;
          s2 = (if turnComplete message then handle_turnComplete s1 else s1);
          (e, s3) = (case audioData message of
                       None \<Rightarrow> (None, s2)
                     | Some audio \<Rightarrow> if audio = [] then (None, s2) else handle_audio now audio s2)
      in case e of
           Some err \<Rightarrow> (Some err, s3)
         | None \<Rightarrow> (None, if interrupted message then handle_interrupted s3 else s3))"

text \<open>The \<open>ended\<close> listener of a buffer source removes it from the active set.\<close>

definition onended :: "handle \<Rightarrow> session_state \<Rightarrow> session_state" where
  "onended source s = s\<lparr>sources := removeAll source (sources s)\<rparr>"

definition onerror :: "jsstring \<Rightarrow> session_state \<Rightarrow> session_state" where
  "onerror e_message s = handleStop (s\<lparr>error := Some (str ''Connection error: '' @ e_message)\<rparr>)"

definition onclose :: "session_state \<Rightarrow> session_state" where
  "onclose s = handleStop s"

text \<open>
  A run of the message handler over the messages that arrive, each with the device time
  at its arrival. An exception ends one handler, not the session.
\<close>

fun run_messages :: "(real \<times> server_message) list \<Rightarrow> session_state \<Rightarrow> session_state" where
  "run_messages [] s = s"
| "run_messages ((now, m) # rest) s = run_messages rest (snd (onmessage now m s))"

subsection \<open>Auxiliary definitions for the proofs\<close>

text \<open>
  The 6-bit values that \<open>btoa_groups\<close> writes, and the padding it adds: together they
  are its output, which lets \<open>atob\<close> be followed through an encoded string.
\<close>

fun sextets :: "nat list \<Rightarrow> nat list" where
  "sextets (a # b # c # rest) =
     (a div 4) # ((a mod 4) * 16 + b div 16) # ((b mod 16) * 4 + c div 64) # (c mod 64) # sextets rest"
| "sextets [a, b] = [a div 4, (a mod 4) * 16 + b div 16, (b mod 16) * 4]"
| "sextets [a] = [a div 4, (a mod 4) * 16]"
| "sextets [] = []"

fun padding :: "nat list \<Rightarrow> jsstring" where
  "padding (a # b # c # rest) = padding rest"
| "padding [a, b] = [61]"
| "padding [a] = [61, 61]"
| "padding [] = []"

text \<open>
  The signed 16-bit integer that two bytes stand for when the low byte comes first
  (little-endian two's complement). It is how the wire format is read off the bytes.
\<close>

definition s16le :: "8 word \<Rightarrow> 8 word \<Rightarrow> int" where
  "s16le lo hi =
     (let u = int (unat lo) + 256 * int (unat hi) in if u < 32768 then u else u - 65536)"

text \<open>
  The calls that stopping makes, read off the refs: the tracks, the two nodes, the two
  contexts and the active buffer sources are released, then the session is closed, each
  only if its ref is set.
\<close>

definition stop_calls :: "session_state \<Rightarrow> device_call list" where
  "stop_calls s =
     (case streamRef s of None \<Rightarrow> [] | Some tracks \<Rightarrow> map TrackStop tracks)
     @ (case ctx_processor s of None \<Rightarrow> [] | Some p \<Rightarrow> [NodeDisconnect p])
     @ (case ctx_source s of None \<Rightarrow> [] | Some n \<Rightarrow> [NodeDisconnect n])
     @ (case ctx_input s of None \<Rightarrow> [] | Some c \<Rightarrow> [ContextClose c])
     @ (case ctx_output s of None \<Rightarrow> [] | Some c \<Rightarrow> [ContextClose c])
     @ map SourceStop (sources s)
     @ (case sessionPromiseRef s of None \<Rightarrow> [] | Some session \<Rightarrow> [SessionClose session])"

text \<open>
  The sessions that a list of calls opens.
\<close>

definition connects :: "device_call list \<Rightarrow> handle list" where
  "connects cs = concat (map (\<lambda>c. case c of Connect h \<Rightarrow> [h] | _ \<Rightarrow> []) cs)"

text \<open>
  The first half of \<open>onmessage\<close>, up to the audio part: the transcription fragments
  and the turn-complete flush.
\<close>

definition before_audio :: "server_message \<Rightarrow> session_state \<Rightarrow> session_state" where
  "before_audio m s =
     (if turnComplete m then handle_turnComplete (handle_transcription m s)
      else handle_transcription m s)"

text \<open>
  The audio of a message that the condition \<open>if (audioData)\<close> lets through: a string
  that is not empty.
\<close>

definition playable :: "server_message \<Rightarrow> jsstring option" where
  "playable m = (case audioData m of None \<Rightarrow> None | Some a \<Rightarrow> if a = [] then None else Some a)"

text \<open>
  A server message with nothing in it, from which the examples build theirs.
\<close>

definition no_content :: server_message where
  "no_content =
     \<lparr>inputTranscription = None, outputTranscription = None, turnComplete = False,
      audioData = None, interrupted = False\<rparr>"

text \<open>
  An example state: a session started with a one-track microphone stream and opened.
\<close>

definition live_session :: session_state where
  "live_session = snd (onopen (handleStart (Inr [7]) initial_state))"

text \<open>
  The user-side and the model-side transcription text of a run of messages.
\<close>

definition input_fragments :: "(real \<times> server_message) list \<Rightarrow> jsstring" where
  "input_fragments evs = concat (map (\<lambda>(now, m). transcription_text (inputTranscription m)) evs)"

definition output_fragments :: "(real \<times> server_message) list \<Rightarrow> jsstring" where
  "output_fragments evs = concat (map (\<lambda>(now, m). transcription_text (outputTranscription m)) evs)"

text \<open>
  The playback schedule in a list of calls: start time and duration of every buffer
  source started, in order.
\<close>

definition scheduled :: "device_call list \<Rightarrow> (real \<times> real) list" where
  "scheduled cs =
     concat (map (\<lambda>c. case c of SourceStart h start b \<Rightarrow> [(start, duration b)] | _ \<Rightarrow> []) cs)"

text \<open>
  No buffer of a schedule starts before the one before it has ended.
\<close>

fun non_overlapping :: "(real \<times> real) list \<Rightarrow> bool" where
  "non_overlapping ((start1, d1) # (start2, d2) # rest) =
     (start1 + d1 \<le> start2 \<and> non_overlapping ((start2, d2) # rest))"
| "non_overlapping [x] = True"
| "non_overlapping [] = True"

text \<open>
  The last buffer of a schedule has ended by time \<open>t\<close>.
\<close>

definition ends_by :: "(real \<times> real) list \<Rightarrow> real \<Rightarrow> bool" where
  "ends_by xs t \<longleftrightarrow> xs = [] \<or> fst (last xs) + snd (last xs) \<le> t"

section \<open>Properties\<close>

subsection \<open>Base64 round trip\<close>

lemma unat_b64_char: "unat (b64_char n) = b64_code n"
  by (simp add: b64_char_def b64_code_def unat_of_nat del: of_nat_add)

lemma b64_index_char: "n < 64 \<Longrightarrow> b64_index (b64_char n) = Some n"
  by (auto simp add: b64_index_def unat_b64_char Let_def b64_code_def)

lemma b64_char_not_pad: "b64_char n \<noteq> 61"
proof
  assume "b64_char n = 61"
  then have "unat (b64_char n) = 61" by simp
  then show False by (simp add: unat_b64_char b64_code_def split: if_splits)
qed

lemma b64_char_not_ws: "\<not> ascii_whitespace (b64_char n)"
proof
  assume "ascii_whitespace (b64_char n)"
  then have "unat (b64_char n) \<in> {9, 10, 12, 13, 32}" 
    by (auto simp: ascii_whitespace_def)
  then show False by (auto simp add: unat_b64_char b64_code_def split: if_splits)
qed

lemma btoa_groups_split: "btoa_groups xs = map b64_char (sextets xs) @ padding xs"
  by (induction xs rule: btoa_groups.induct) simp_all

lemma length_btoa_groups: "length (btoa_groups xs) mod 4 = 0"
  by (induction xs rule: btoa_groups.induct) simp_all

lemma sextets_bound: "\<forall>x \<in> set xs. x < 256 \<Longrightarrow> \<forall>v \<in> set (sextets xs). v < 64"
  by (induction xs rule: sextets.induct) (auto simp: less_mult_imp_div_less)

lemma length_sextets: "length (sextets xs) mod 4 \<noteq> 1"
  by (induction xs rule: sextets.induct) simp_all

lemma strip_padding_btoa: "strip_padding (btoa_groups xs) = map b64_char (sextets xs)"
proof -
  have pad: "padding xs = [] \<or> padding xs = [61] \<and> sextets xs \<noteq> [] \<or> padding xs = [61, 61] \<and> sextets xs \<noteq> []"
    by (induction xs rule: sextets.induct) auto
  have nl: "ys \<noteq> [] \<Longrightarrow> last (map b64_char ys) \<noteq> 61" for ys
    by (simp add: last_map b64_char_not_pad)
  from pad show ?thesis
    using length_btoa_groups[of xs] nl[of "sextets xs"]
    by (auto simp: strip_padding_def btoa_groups_split butlast_append)
qed

lemma sextet_arith:
  fixes a b c :: nat
  assumes "b < 256" "c < 256"
  shows "a div 4 * 4 + ((a mod 4) * 16 + b div 16) div 16 = a" 
    and "((a mod 4) * 16 + b div 16) mod 16 * 16 + (b mod 16 * 4 + c div 64) div 4 = b"
    and "(b mod 16 * 4 + c div 64) mod 4 * 64 + c mod 64 = c"
    and "((a mod 4) * 16 + b div 16) mod 16 * 16 + (b mod 16 * 4) div 4 = b"
proof -
  have b16: "b div 16 < 16" and c64: "c div 64 < 4"
    using assms by (simp_all add: less_mult_imp_div_less)
  show "a div 4 * 4 + ((a mod 4) * 16 + b div 16) div 16 = a" 
    using b16 by simp
  show "((a mod 4) * 16 + b div 16) mod 16 * 16 + (b mod 16 * 4 + c div 64) div 4 = b"
    using b16 c64 by simp
  show "(b mod 16 * 4 + c div 64) mod 4 * 64 + c mod 64 = c"
    using c64 by simp
  show "((a mod 4) * 16 + b div 16) mod 16 * 16 + (b mod 16 * 4) div 4 = b"
    using b16 by simp
qed

lemma atob_groups_sextets: "\<forall>x \<in> set xs. x < 256 \<Longrightarrow> atob_groups (sextets xs) = map of_nat xs"
proof (induction xs rule: sextets.induct)
  case (1 a b c rest)
  then have b: "b < 256" and c: "c < 256" and r: "\<forall>x \<in> set rest. x < 256"
    by simp_all
  show ?case
    by (simp only: sextets.simps atob_groups.simps sextet_arith(1-3)[OF b c] "1.IH"[OF r] list.map)
next
  case (2 a b)
  then have b: "b < 256" by simp
  show ?case
    by (simp only: sextets.simps atob_groups.simps sextet_arith(1,4)[OF b b] list.map)
next
  case (3 a)
  have "a div 4 * 4 + a mod 4 * 16 div 16 = a" by simp
  then show ?case
    by (simp only: sextets.simps atob_groups.simps list.map)
next
  case 4
  show ?case by simp
qed

lemma unat_byte_less: "unat (b::8 word) < 256"
  using unsigned_less[of b, where 'a=nat] by simp

lemma unat_ucast_8_16: "unat (ucast (b::8 word) :: 16 word) = unat b"
proof -
  have "unat b < 2 ^ 16" using unat_byte_less[of b] by simp
  then show ?thesis by (simp add: unsigned_ucast_eq take_bit_nat_eq_self)
qed

lemma set_padding: "set (padding xs) \<subseteq> {61}"
  by (induction xs rule: padding.induct) auto

lemma atob_btoa:
  assumes "\<forall>c \<in> set s. unat c \<le> 255"
  shows "\<exists>t. btoa s = Inr t \<and> atob t = Inr s"
proof -
  let ?xs = "map unat s"
  have b: "btoa s = Inr (btoa_groups ?xs)"
    using assms by (auto simp: btoa_def)
  have bound: "\<forall>x \<in> set ?xs. x < 256" using assms by auto
  have "\<not> ascii_whitespace c" if "c \<in> set (btoa_groups ?xs)" for c
  proof -
    from that have "c \<in> b64_char ` set (sextets ?xs) \<or> c = 61"
      using set_padding[of ?xs] by (auto simp: btoa_groups_split)
    then show ?thesis
      by (auto simp: b64_char_not_ws) (simp add: ascii_whitespace_def)
  qed
  then have f: "filter (\<lambda>c. \<not> ascii_whitespace c) (btoa_groups ?xs) = btoa_groups ?xs"
    by (simp add: filter_True)
  have i: "map (\<lambda>c. the (b64_index c)) (map b64_char (sextets ?xs)) = sextets ?xs"
    using sextets_bound[OF bound] by (simp add: map_idI b64_index_char)
  have n: "\<not> (\<exists>c \<in> set (map b64_char (sextets ?xs)). b64_index c = None)"
    using sextets_bound[OF bound] by (auto simp: b64_index_char)
  have "atob (btoa_groups ?xs) = Inr (map of_nat ?xs)"
    unfolding atob_def f strip_padding_btoa Let_def
    using n i length_sextets[of ?xs] atob_groups_sextets[OF bound] by simp
  then show ?thesis using b by (simp add: comp_def)
qed

lemma decode_encode: "\<exists>t. encode bytes = Inr t \<and> decode t = Inr bytes"
proof -
  have "\<forall>c \<in> set (map ucast bytes :: jsstring). unat c \<le> 255"
  proof
    fix c :: "16 word" assume "c \<in> set (map ucast bytes)"
    then obtain b :: "8 word" where "c = ucast b" by auto
    then show "unat c \<le> 255" using unat_byte_less[of b] by (simp add: unat_ucast_8_16)
  qed
  from atob_btoa[OF this] obtain t where "btoa (map ucast bytes) = Inr t" "atob t = Inr (map ucast bytes)"
    by blast
  moreover have "map (ucast :: 16 word \<Rightarrow> 8 word) (map ucast bytes) = bytes"
    by (simp add: map_idI ucast_down_ucast_id is_down)
  ultimately show ?thesis by (simp add: encode_def decode_def)
qed

subsection \<open>Sixteen-bit samples and their bytes\<close>

lemma word16_bytes: "(ucast (ucast (w::16 word) :: 8 word) :: 16 word) OR push_bit 8 (ucast (ucast (drop_bit 8 w) :: 8 word)) = w"
  by (rule bit_word_eqI) (auto simp: bit_simps)

lemma word16_lo: "(ucast ((ucast (lo::8 word) :: 16 word) OR push_bit 8 (ucast (hi::8 word))) :: 8 word) = lo"
  by (rule bit_word_eqI) (auto simp: bit_simps)

lemma word16_hi: "(ucast (drop_bit 8 ((ucast (lo::8 word) :: 16 word) OR push_bit 8 (ucast (hi::8 word)))) :: 8 word) = hi"
  by (rule bit_word_eqI) (auto simp: bit_simps dest: bit_imp_le_length)

lemma unat_lo: "unat (ucast (w::16 word) :: 8 word) = unat w mod 256"
  by (simp add: unsigned_ucast_eq take_bit_eq_mod)

lemma unat_hi: "unat (ucast (drop_bit 8 (w::16 word)) :: 8 word) = unat w div 256"
proof -
  have "unat w < 65536" using unsigned_less[of w, where 'a=nat] by simp
  then have "unat w div 256 < 256" by simp
  then show ?thesis
    by (simp add: unsigned_ucast_eq take_bit_eq_mod drop_bit_eq_div unat_div)
qed

lemma unat_hi_mod: "unat (drop_bit 8 (w::16 word)) mod 256 = unat w div 256"
  using unat_hi[of w] by (simp only: unat_lo)

lemma s16le_sint: "s16le (ucast w) (ucast (drop_bit 8 w)) = sint (w::16 word)"
proof -
  have u: "int (unat w mod 256) + 256 * int (unat w div 256) = uint w"
    by (simp add: of_nat_mod of_nat_div)
  have b: "0 \<le> uint w" "uint w < 65536"
    using uint_lt2p[of w] by simp_all
  have "sint w = (uint w + 32768) mod 65536 - 32768"
    using int_word_sint[of "uint w", where 'a=16] by simp
  also have "\<dots> = (if uint w < 32768 then uint w else uint w - 65536)"
  proof (cases "uint w < 32768")
    case True
    then show ?thesis using b by (simp add: mod_pos_pos_trivial)
  next
    case False
    have "uint w + 32768 = uint w - 32768 + 65536"
      by arith
    then have "(uint w + 32768) mod 65536 = (uint w - 32768 + 65536) mod 65536"
      by (rule arg_cong)
    also have "\<dots> = (uint w - 32768) mod 65536"
      by (rule mod_add_self2)
    also have "\<dots> = uint w - 32768"
      using b False by (simp add: mod_pos_pos_trivial)
    finally show ?thesis using False by simp
  qed
  finally have "sint w = (if uint w < 32768 then uint w else uint w - 65536)" .
  moreover have "s16le (ucast w) (ucast (drop_bit 8 w)) =
      (if uint w < 32768 then uint w else uint w - 65536)"
    by (simp only: s16le_def unat_lo unat_hi_mod u Let_def)
  ultimately show ?thesis by simp
qed

lemma sint_pair: "sint ((ucast (lo::8 word) :: 16 word) OR push_bit 8 (ucast (hi::8 word))) = s16le lo hi"
  using s16le_sint[of "ucast lo OR push_bit 8 (ucast hi)"] by (simp only: word16_lo word16_hi)

lemma length_Uint8Array_of_buffer: "length (Uint8Array_of_buffer ws) = 2 * length ws"
  by (induction ws) (simp_all add: Uint8Array_of_buffer_def int16_bytes_def)

lemma nth_Uint8Array_of_buffer:
  "i < length ws \<Longrightarrow>
     Uint8Array_of_buffer ws ! (2 * i) = ucast (ws ! i) \<and>
     Uint8Array_of_buffer ws ! (2 * i + 1) = ucast (drop_bit 8 (ws ! i))"
proof (induction ws arbitrary: i)
  case Nil
  then show ?case by simp
next
  case (Cons w ws)
  show ?case
  proof (cases i)
    case 0
    then show ?thesis by (simp add: Uint8Array_of_buffer_def int16_bytes_def)
  next
    case (Suc j)
    with Cons.prems have "j < length ws" by simp
    from Cons.IH[OF this] show ?thesis
      using Suc by (simp add: Uint8Array_of_buffer_def int16_bytes_def)
  qed
qed

lemma length_int16_pairs: "length (int16_pairs bs) = length bs div 2"
  by (induction bs rule: int16_pairs.induct) simp_all

lemma nth_int16_pairs:
  "i < length bs div 2 \<Longrightarrow>
     int16_pairs bs ! i = ucast (bs ! (2 * i)) OR push_bit 8 (ucast (bs ! (2 * i + 1)))"
proof (induction bs arbitrary: i rule: int16_pairs.induct)
  case (1 lo hi rest)
  show ?case
  proof (cases i)
    case 0
    then show ?thesis by simp
  next
    case (Suc j)
    with "1.prems" have "j < length rest div 2" by simp
    from "1.IH"[OF this] show ?thesis using Suc by simp
  qed
qed simp_all

lemma int16_pairs_bytes: "int16_pairs (Uint8Array_of_buffer ws) = ws"
  by (induction ws) (simp_all add: Uint8Array_of_buffer_def int16_bytes_def word16_bytes)

lemma Int16Array_of_Uint8Array: "Int16Array_of_buffer (Uint8Array_of_buffer ws) = Inr ws"
  by (simp add: Int16Array_of_buffer_def length_Uint8Array_of_buffer int16_pairs_bytes)

subsection \<open>The wire format\<close>

lemma createBlob_bytes:
  "\<exists>b. createBlob data = Inr b
       \<and> mimeType b = str ''audio/pcm;rate=16000''
       \<and> encode (Uint8Array_of_buffer (map (\<lambda>x. ToInt16 (x * 32768)) data)) = Inr (blob_data b)
       \<and> decode (blob_data b) = Inr (Uint8Array_of_buffer (map (\<lambda>x. ToInt16 (x * 32768)) data))"
proof -
  obtain t where "encode (Uint8Array_of_buffer (map (\<lambda>x. ToInt16 (x * 32768)) data)) = Inr t"
    and "decode t = Inr (Uint8Array_of_buffer (map (\<lambda>x. ToInt16 (x * 32768)) data))"
    using decode_encode by blast
  then show ?thesis by (simp add: createBlob_def)
qed

lemma decodeAudioData_mono:
  assumes "even (length bytes)" and "bytes \<noteq> []"
  shows "decodeAudioData bytes rate 1 =
           Inr \<lparr>sampleRate = rate, frames = length bytes div 2,
                channels = [map (\<lambda>i. real_of_int (s16le (bytes ! (2 * i)) (bytes ! (2 * i + 1))) / 32768)
                              [0..<length bytes div 2]]\<rparr>"
proof -
  have "length bytes \<noteq> 0" using assms(2) by simp
  with assms(1) have pos: "length bytes div 2 \<noteq> 0" by presburger
  have "map (\<lambda>i. real_of_int (sint (int16_pairs bytes ! i)) / 32768) [0..<length bytes div 2]
      = map (\<lambda>i. real_of_int (s16le (bytes ! (2 * i)) (bytes ! (2 * i + 1))) / 32768) [0..<length bytes div 2]"
    by (rule map_cong) (simp_all add: nth_int16_pairs sint_pair)
  then show ?thesis
    using assms(1) pos
    by (simp add: decodeAudioData_def Int16Array_of_buffer_def length_int16_pairs Let_def)
qed

lemma js_trunc_error: "\<bar>real_of_int (js_trunc y) - y\<bar> < 1"
  unfolding js_trunc_def by (simp; linarith)

lemma js_trunc_range:
  assumes "- 1 \<le> x" and "x < 1"
  shows "- 32768 \<le> js_trunc (x * 32768)" and "js_trunc (x * 32768) < 32768"
proof -
  have "- 32768 \<le> x * 32768" "x * 32768 < 32768" using assms by simp_all
  then show "- 32768 \<le> js_trunc (x * 32768)" "js_trunc (x * 32768) < 32768"
    unfolding js_trunc_def by (simp_all; linarith)+
qed

lemma sint_ToInt16: "- 32768 \<le> js_trunc y \<Longrightarrow> js_trunc y < 32768 \<Longrightarrow> sint (ToInt16 y) = js_trunc y"
  by (simp add: ToInt16_def sint_sbintrunc' signed_take_bit_int_eq_self)

lemma sint_ToInt16_wrap: "sint (ToInt16 y) = (js_trunc y + 32768) mod 65536 - 32768"
  by (simp add: ToInt16_def int_word_sint)

lemma createBlob_samples:
  "\<exists>b payload. createBlob data = Inr b
       \<and> mimeType b = str ''audio/pcm;rate=16000''
       \<and> encode payload = Inr (blob_data b)
       \<and> decode (blob_data b) = Inr payload
       \<and> Int16Array_of_buffer payload = Inr (map (\<lambda>x. ToInt16 (x * 32768)) data)
       \<and> length payload = 2 * length data
       \<and> (\<forall>i < length data.
             payload ! (2 * i) = ucast (ToInt16 (data ! i * 32768))
           \<and> payload ! (2 * i + 1) = ucast (drop_bit 8 (ToInt16 (data ! i * 32768)))
           \<and> s16le (payload ! (2 * i)) (payload ! (2 * i + 1)) = sint (ToInt16 (data ! i * 32768)))"
proof -
  let ?ws = "map (\<lambda>x. ToInt16 (x * 32768)) data"
  obtain b where b: "createBlob data = Inr b" "mimeType b = str ''audio/pcm;rate=16000''"
      "encode (Uint8Array_of_buffer ?ws) = Inr (blob_data b)"
      "decode (blob_data b) = Inr (Uint8Array_of_buffer ?ws)"
    using createBlob_bytes[of data] by blast
  have "\<forall>i < length data.
          Uint8Array_of_buffer ?ws ! (2 * i) = ucast (ToInt16 (data ! i * 32768))
        \<and> Uint8Array_of_buffer ?ws ! (2 * i + 1) = ucast (drop_bit 8 (ToInt16 (data ! i * 32768)))
        \<and> s16le (Uint8Array_of_buffer ?ws ! (2 * i)) (Uint8Array_of_buffer ?ws ! (2 * i + 1))
            = sint (ToInt16 (data ! i * 32768))"
  proof (intro allI impI)
    fix i assume i: "i < length data"
    then have "i < length ?ws" by simp
    from nth_Uint8Array_of_buffer[OF this] i
    show "Uint8Array_of_buffer ?ws ! (2 * i) = ucast (ToInt16 (data ! i * 32768))
        \<and> Uint8Array_of_buffer ?ws ! (2 * i + 1) = ucast (drop_bit 8 (ToInt16 (data ! i * 32768)))
        \<and> s16le (Uint8Array_of_buffer ?ws ! (2 * i)) (Uint8Array_of_buffer ?ws ! (2 * i + 1))
            = sint (ToInt16 (data ! i * 32768))"
      by (simp add: s16le_sint)
  qed
  with b show ?thesis
    using Int16Array_of_Uint8Array[of ?ws] length_Uint8Array_of_buffer[of ?ws]
    by (intro exI[of _ b] exI[of _ "Uint8Array_of_buffer ?ws"]) (simp add: s16le_sint)
qed

lemma roundtrip_samples:
  assumes "xs \<noteq> []" and "\<forall>x \<in> set xs. - 1 \<le> x \<and> x < 1"
  shows "\<exists>b payload buf ys. createBlob xs = Inr b \<and> decode (blob_data b) = Inr payload
           \<and> decodeAudioData payload rate 1 = Inr buf \<and> channels buf = [ys]
           \<and> length ys = length xs
           \<and> (\<forall>i < length xs. \<bar>ys ! i - xs ! i\<bar> < 1 / 32768)"
proof -
  obtain b payload where b: "createBlob xs = Inr b" "decode (blob_data b) = Inr payload"
      "length payload = 2 * length xs"
      and s: "\<forall>i < length xs. s16le (payload ! (2 * i)) (payload ! (2 * i + 1)) = sint (ToInt16 (xs ! i * 32768))"
    using createBlob_samples[of xs] by blast
  let ?ys = "map (\<lambda>i. real_of_int (s16le (payload ! (2 * i)) (payload ! (2 * i + 1))) / 32768)
               [0..<length payload div 2]"
  have "even (length payload)" "payload \<noteq> []"
    using b(3) assms(1) by auto
  from decodeAudioData_mono[OF this, of rate]
  have d: "decodeAudioData payload rate 1 =
             Inr \<lparr>sampleRate = rate, frames = length payload div 2, channels = [?ys]\<rparr>" .
  have len: "length ?ys = length xs" using b(3) by simp
  have "\<bar>?ys ! i - xs ! i\<bar> < 1 / 32768" if i: "i < length xs" for i
  proof -
    from i assms(2) have r: "- 1 \<le> xs ! i" "xs ! i < 1" by auto
    have "?ys ! i = real_of_int (sint (ToInt16 (xs ! i * 32768))) / 32768"
      using i b(3) s by simp
    also have "\<dots> = real_of_int (js_trunc (xs ! i * 32768)) / 32768"
      using sint_ToInt16[OF js_trunc_range[OF r]] by simp
    finally have y: "?ys ! i = real_of_int (js_trunc (xs ! i * 32768)) / 32768" .
    have "\<bar>real_of_int (js_trunc (xs ! i * 32768)) / 32768 - xs ! i\<bar> < 1 / 32768"
      using js_trunc_error[of "xs ! i * 32768"] by (simp add: field_simps abs_if split: if_splits)
    then show ?thesis by (simp only: y)
  qed
  with b d len show ?thesis
    by (intro exI[of _ b] exI[of _ payload] exI[of _ "\<lparr>sampleRate = rate, frames = length payload div 2, channels = [?ys]\<rparr>"] exI[of _ ?ys]) simp
qed

text \<open>
  Claim C6. The outbound encoder multiplies every sample by \<open>32768\<close> and stores it as a
  signed 16-bit little-endian integer: read as such, the two bytes of sample \<open>i\<close> are the
  truncated product, exactly so for a sample in \<open>[-1, 1)\<close> and modulo \<open>2^16\<close> in
  general. The bytes are Base64-encoded (\<open>decode\<close> gives them back) and tagged
  \<open>audio/pcm;rate=16000\<close>. The inbound decoder reads every pair of bytes as a signed
  16-bit little-endian integer and divides it by \<open>32768\<close>. Encoding and then decoding
  samples of \<open>[-1, 1)\<close>, \<open>0.5\<close> among them, gives each back within \<open>1/32768\<close>.
\<close>

theorem pcm_wire_format:
  "(\<exists>b payload. createBlob data = Inr b
       \<and> mimeType b = str ''audio/pcm;rate=16000''
       \<and> encode payload = Inr (blob_data b)
       \<and> decode (blob_data b) = Inr payload
       \<and> length payload = 2 * length data
       \<and> (\<forall>i < length data.
             s16le (payload ! (2 * i)) (payload ! (2 * i + 1))
               = (js_trunc (data ! i * 32768) + 32768) mod 65536 - 32768
           \<and> (- 1 \<le> data ! i \<and> data ! i < 1 \<longrightarrow>
                s16le (payload ! (2 * i)) (payload ! (2 * i + 1)) = js_trunc (data ! i * 32768))))
   \<and> (even (length bytes) \<and> bytes \<noteq> [] \<longrightarrow>
        decodeAudioData bytes rate 1 =
          Inr \<lparr>sampleRate = rate, frames = length bytes div 2,
               channels = [map (\<lambda>i. real_of_int (s16le (bytes ! (2 * i)) (bytes ! (2 * i + 1))) / 32768)
                             [0..<length bytes div 2]]\<rparr>)
   \<and> (xs \<noteq> [] \<and> (\<forall>x \<in> set xs. - 1 \<le> x \<and> x < 1) \<longrightarrow>
        (\<exists>b payload buf ys. createBlob xs = Inr b \<and> decode (blob_data b) = Inr payload
           \<and> decodeAudioData payload rate 1 = Inr buf \<and> channels buf = [ys]
           \<and> length ys = length xs
           \<and> (\<forall>i < length xs. \<bar>ys ! i - xs ! i\<bar> < 1 / 32768)))"
proof (intro conjI impI)
  obtain b payload where b: "createBlob data = Inr b" "mimeType b = str ''audio/pcm;rate=16000''"
      "encode payload = Inr (blob_data b)" "decode (blob_data b) = Inr payload"
      "length payload = 2 * length data"
      and s: "\<forall>i < length data. s16le (payload ! (2 * i)) (payload ! (2 * i + 1)) = sint (ToInt16 (data ! i * 32768))"
    using createBlob_samples[of data] by blast
  have "\<forall>i < length data.
             s16le (payload ! (2 * i)) (payload ! (2 * i + 1))
               = (js_trunc (data ! i * 32768) + 32768) mod 65536 - 32768
           \<and> (- 1 \<le> data ! i \<and> data ! i < 1 \<longrightarrow>
                s16le (payload ! (2 * i)) (payload ! (2 * i + 1)) = js_trunc (data ! i * 32768))"
    using s by (simp add: sint_ToInt16 js_trunc_range) (simp add: sint_ToInt16_wrap)
  with b show "\<exists>b payload. createBlob data = Inr b
       \<and> mimeType b = str ''audio/pcm;rate=16000''
       \<and> encode payload = Inr (blob_data b)
       \<and> decode (blob_data b) = Inr payload
       \<and> length payload = 2 * length data
       \<and> (\<forall>i < length data.
             s16le (payload ! (2 * i)) (payload ! (2 * i + 1))
               = (js_trunc (data ! i * 32768) + 32768) mod 65536 - 32768
           \<and> (- 1 \<le> data ! i \<and> data ! i < 1 \<longrightarrow>
                s16le (payload ! (2 * i)) (payload ! (2 * i + 1)) = js_trunc (data ! i * 32768)))"
    by blast
next
  assume "even (length bytes) \<and> bytes \<noteq> []"
  then show "decodeAudioData bytes rate 1 =
          Inr \<lparr>sampleRate = rate, frames = length bytes div 2,
               channels = [map (\<lambda>i. real_of_int (s16le (bytes ! (2 * i)) (bytes ! (2 * i + 1))) / 32768)
                             [0..<length bytes div 2]]\<rparr>"
    using decodeAudioData_mono by blast
next
  assume "xs \<noteq> [] \<and> (\<forall>x \<in> set xs. - 1 \<le> x \<and> x < 1)"
  then show "\<exists>b payload buf ys. createBlob xs = Inr b \<and> decode (blob_data b) = Inr payload
           \<and> decodeAudioData payload rate 1 = Inr buf \<and> channels buf = [ys]
           \<and> length ys = length xs
           \<and> (\<forall>i < length xs. \<bar>ys ! i - xs ! i\<bar> < 1 / 32768)"
    using roundtrip_samples by blast
qed

text \<open>The sample \<open>0.5\<close>: its bytes are \<open>00 40\<close>, and it comes back as \<open>0.5\<close>.\<close>

theorem pcm_wire_format_witness:
  "(\<exists>b payload. createBlob [1 / 2] = Inr b
       \<and> mimeType b = str ''audio/pcm;rate=16000''
       \<and> encode payload = Inr (blob_data b)
       \<and> decode (blob_data b) = Inr payload
       \<and> length payload = 2
       \<and> s16le (payload ! 0) (payload ! 1) = 16384)
   \<and> even (length [0, 64 :: 8 word]) \<and> [0, 64 :: 8 word] \<noteq> []
   \<and> decodeAudioData [0, 64] 24000 1 = Inr \<lparr>sampleRate = 24000, frames = 1, channels = [[1 / 2]]\<rparr>
   \<and> [1 / 2 :: real] \<noteq> [] \<and> - 1 \<le> (1 / 2 :: real) \<and> (1 / 2 :: real) < 1
   \<and> (\<exists>b payload buf y. createBlob [1 / 2] = Inr b \<and> decode (blob_data b) = Inr payload
           \<and> decodeAudioData payload 24000 1 = Inr buf \<and> channels buf = [[y]]
           \<and> \<bar>y - 1 / 2\<bar> < 1 / 32768)"
proof -
  note t = pcm_wire_format[of "[1 / 2]" "[0, 64]" 24000 "[1 / 2]"]
  have h1: "even (length [0, 64 :: 8 word]) \<and> [0, 64 :: 8 word] \<noteq> []" by simp
  have h2: "[1 / 2 :: real] \<noteq> [] \<and> (\<forall>x \<in> set [1 / 2 :: real]. - 1 \<le> x \<and> x < 1)" by simp
  have tr: "js_trunc (1 / 2 * 32768) = 16384" by (simp add: js_trunc_def)
  from t have "\<exists>b payload. createBlob [1 / 2] = Inr b
       \<and> mimeType b = str ''audio/pcm;rate=16000''
       \<and> encode payload = Inr (blob_data b)
       \<and> decode (blob_data b) = Inr payload
       \<and> length payload = 2
       \<and> s16le (payload ! 0) (payload ! 1) = 16384"
    using tr by simp
  moreover from t h1 have "decodeAudioData [0, 64] 24000 1
      = Inr \<lparr>sampleRate = 24000, frames = 1, channels = [[1 / 2]]\<rparr>"
    by (simp add: s16le_def)
  moreover from t h2 obtain b payload buf ys where r: "createBlob [1 / 2] = Inr b"
      "decode (blob_data b) = Inr payload" "decodeAudioData payload 24000 1 = Inr buf"
      "channels buf = [ys]" "length ys = length [1 / 2 :: real]"
      "\<forall>i < length [1 / 2 :: real]. \<bar>ys ! i - [1 / 2] ! i\<bar> < 1 / 32768"
    by blast
  then have "ys = [ys ! 0]" by (cases ys) simp_all
  with r have "\<exists>b payload buf y. createBlob [1 / 2] = Inr b \<and> decode (blob_data b) = Inr payload
           \<and> decodeAudioData payload 24000 1 = Inr buf \<and> channels buf = [[y]]
           \<and> \<bar>y - 1 / 2\<bar> < 1 / 32768"
    by (intro exI[of _ b] exI[of _ payload] exI[of _ buf] exI[of _ "ys ! 0"]) auto
  ultimately show ?thesis using h1 h2 by simp
qed

text \<open>
  Claim C9. A sample that is exactly \<open>1.0\<close> is encoded as the 16-bit value \<open>-32768\<close>,
  not as \<open>32767\<close>: the product \<open>32768\<close> is stored without clamping and wraps around
  (bytes \<open>00 80\<close>).
\<close>

theorem full_scale_sample_wraps:
  assumes "i < length data" and "data ! i = 1"
  shows "\<exists>b payload int16. createBlob data = Inr b \<and> decode (blob_data b) = Inr payload
           \<and> Int16Array_of_buffer payload = Inr int16
           \<and> sint (int16 ! i) = - 32768 \<and> sint (int16 ! i) \<noteq> 32767
           \<and> payload ! (2 * i) = 0 \<and> payload ! (2 * i + 1) = 128"
proof -
  obtain b payload where b: "createBlob data = Inr b" "decode (blob_data b) = Inr payload"
      "Int16Array_of_buffer payload = Inr (map (\<lambda>x. ToInt16 (x * 32768)) data)"
      and s: "\<forall>i < length data.
             payload ! (2 * i) = ucast (ToInt16 (data ! i * 32768))
           \<and> payload ! (2 * i + 1) = ucast (drop_bit 8 (ToInt16 (data ! i * 32768)))
           \<and> s16le (payload ! (2 * i)) (payload ! (2 * i + 1)) = sint (ToInt16 (data ! i * 32768))"
    using createBlob_samples[of data] by blast
  have w: "ToInt16 (data ! i * 32768) = 32768"
    using assms(2) by (simp add: ToInt16_def js_trunc_def)
  have "sint (32768 :: 16 word) = - 32768" by simp
  moreover have "(ucast (32768 :: 16 word) :: 8 word) = 0" by simp
  moreover have "(ucast (drop_bit 8 (32768 :: 16 word)) :: 8 word) = 128" by simp
  ultimately show ?thesis
    using b s assms(1) w
    by (intro exI[of _ b] exI[of _ payload] exI[of _ "map (\<lambda>x. ToInt16 (x * 32768)) data"]) simp
qed

theorem full_scale_sample_wraps_witness:
  "0 < length [1 :: real] \<and> [1 :: real] ! 0 = 1
   \<and> (\<exists>b payload int16. createBlob [1] = Inr b \<and> decode (blob_data b) = Inr payload
           \<and> Int16Array_of_buffer payload = Inr int16
           \<and> sint (int16 ! 0) = - 32768 \<and> sint (int16 ! 0) \<noteq> 32767
           \<and> payload ! 0 = 0 \<and> payload ! 1 = 128)"
  using full_scale_sample_wraps[of 0 "[1]"] by simp

subsection \<open>The session\<close>

lemma live_session_eq:
  "live_session =
     \<lparr>isSessionActive = True, statusMessage = str ''Connected. Start speaking...'',
      error = None, transcriptionHistory = [], sessionPromiseRef = Some 3,
      streamRef = Some [7], ctx_input = Some 1, ctx_output = Some 2,
      ctx_processor = Some 5, ctx_source = Some 4, nextStartTime = 0,
      sources = [], currentInput = [], currentOutput = [], aiRef = Some 0,
      calls = [Connect 3], fresh = 6\<rparr>"
  by (simp add: live_session_def onopen_def handleStart_def initial_state_def Let_def)

lemma cleanup_eq:
  "cleanup s =
     s\<lparr>isSessionActive := False,
       statusMessage := str ''Session ended. Click Start to begin again.'',
       streamRef := None,
       ctx_input := None, ctx_output := None, ctx_processor := None, ctx_source := None,
       sources := [],
       calls := calls s @ stop_calls (s\<lparr>sessionPromiseRef := None\<rparr>)\<rparr>"
  by (cases s; cases "streamRef s"; cases "ctx_processor s"; cases "ctx_source s";
      cases "ctx_input s"; cases "ctx_output s")
     (simp_all add: cleanup_def stop_calls_def)

lemma handleStop_eq:
  "handleStop s =
     s\<lparr>isSessionActive := False,
       statusMessage := str ''Session ended. Click Start to begin again.'',
       sessionPromiseRef := None, streamRef := None,
       ctx_input := None, ctx_output := None, ctx_processor := None, ctx_source := None,
       sources := [],
       calls := calls s @ stop_calls s\<rparr>"
  by (cases "sessionPromiseRef s") (simp_all add: handleStop_def cleanup_eq stop_calls_def Let_def)

lemma stop_calls_handleStop: "stop_calls (handleStop s) = []"
  by (simp add: handleStop_eq stop_calls_def)

text \<open>
  Claim C5. \<open>stop()\<close> is idempotent: a second \<open>handleStop\<close> leaves the state as
  the first one left it. In particular it adds no call: no track, node, context, buffer
  source or session is released a second time. The handler has no exception to raise.
\<close>

theorem handleStop_idempotent:
  "handleStop (handleStop s) = handleStop s
   \<and> calls (handleStop (handleStop s)) = calls (handleStop s)"
proof -
  have "handleStop (handleStop s) = handleStop s"
    by (subst handleStop_eq[of "handleStop s"]) (simp add: stop_calls_handleStop, simp add: handleStop_eq)
  then show ?thesis by simp
qed

text \<open>
  On the example session the first stop releases every handle once, the second none.
\<close>

theorem handleStop_idempotent_witness:
  "calls (handleStop live_session)
     = [Connect 3, TrackStop 7, NodeDisconnect 5, NodeDisconnect 4,
        ContextClose 1, ContextClose 2, SessionClose 3]
   \<and> calls (handleStop (handleStop live_session)) = calls (handleStop live_session)
   \<and> handleStop (handleStop live_session) = handleStop live_session"
  using handleStop_idempotent[of live_session]
  by (simp add: handleStop_eq live_session_eq stop_calls_def)

lemma handle_audio_transcript:
  "transcriptionHistory (snd (handle_audio now a s)) = transcriptionHistory s"
  "currentInput (snd (handle_audio now a s)) = currentInput s"
  "currentOutput (snd (handle_audio now a s)) = currentOutput s"
  by (simp_all add: handle_audio_def Let_def split: option.splits sum.splits)

lemma handle_interrupted_transcript:
  "transcriptionHistory (handle_interrupted s) = transcriptionHistory s"
  "currentInput (handle_interrupted s) = currentInput s"
  "currentOutput (handle_interrupted s) = currentOutput s"
  by (simp_all add: handle_interrupted_def)

lemma onmessage_no_audio:
  "playable m = None \<Longrightarrow>
     onmessage now m s =
       (None, if interrupted m then handle_interrupted (before_audio m s) else before_audio m s)"
  by (auto simp: onmessage_def playable_def before_audio_def Let_def split: option.splits if_splits)

lemma onmessage_audio:
  "playable m = Some a \<Longrightarrow>
     onmessage now m s =
       (case handle_audio now a (before_audio m s) of
          (Some err, s3) \<Rightarrow> (Some err, s3)
        | (None, s3) \<Rightarrow> (None, if interrupted m then handle_interrupted s3 else s3))"
  by (auto simp: onmessage_def playable_def before_audio_def Let_def split: option.splits if_splits prod.splits)

lemma onmessage_transcript:
  "transcriptionHistory (snd (onmessage now m s)) = transcriptionHistory (before_audio m s)"
  "currentInput (snd (onmessage now m s)) = currentInput (before_audio m s)"
  "currentOutput (snd (onmessage now m s)) = currentOutput (before_audio m s)"
proof -
  show "transcriptionHistory (snd (onmessage now m s)) = transcriptionHistory (before_audio m s)"
  proof (cases "playable m")
    case None
    then show ?thesis by (simp add: onmessage_no_audio handle_interrupted_transcript)
  next
    case (Some a)
    obtain e s3 where h: "handle_audio now a (before_audio m s) = (e, s3)" by force
    then have "transcriptionHistory s3 = transcriptionHistory (before_audio m s)"
      using handle_audio_transcript(1)[of now a "before_audio m s"] by simp
    then show ?thesis using Some h
      by (cases e) (simp_all add: onmessage_audio handle_interrupted_transcript)
  qed
  show "currentInput (snd (onmessage now m s)) = currentInput (before_audio m s)"
  proof (cases "playable m")
    case None
    then show ?thesis by (simp add: onmessage_no_audio handle_interrupted_transcript)
  next
    case (Some a)
    obtain e s3 where h: "handle_audio now a (before_audio m s) = (e, s3)" by force
    then have "currentInput s3 = currentInput (before_audio m s)"
      using handle_audio_transcript(2)[of now a "before_audio m s"] by simp
    then show ?thesis using Some h
      by (cases e) (simp_all add: onmessage_audio handle_interrupted_transcript)
  qed
  show "currentOutput (snd (onmessage now m s)) = currentOutput (before_audio m s)"
  proof (cases "playable m")
    case None
    then show ?thesis by (simp add: onmessage_no_audio handle_interrupted_transcript)
  next
    case (Some a)
    obtain e s3 where h: "handle_audio now a (before_audio m s) = (e, s3)" by force
    then have "currentOutput s3 = currentOutput (before_audio m s)"
      using handle_audio_transcript(3)[of now a "before_audio m s"] by simp
    then show ?thesis using Some h
      by (cases e) (simp_all add: onmessage_audio handle_interrupted_transcript)
  qed
qed

lemma before_audio_turnComplete:
  assumes "turnComplete m"
  shows "transcriptionHistory (before_audio m s) =
           transcriptionHistory s
           @ (if blank (currentInput s @ transcription_text (inputTranscription m)) then []
              else [\<lparr>speaker = User, entry_text = currentInput s @ transcription_text (inputTranscription m)\<rparr>])
           @ (if blank (currentOutput s @ transcription_text (outputTranscription m)) then []
              else [\<lparr>speaker = Model, entry_text = currentOutput s @ transcription_text (outputTranscription m)\<rparr>])"
    and "currentInput (before_audio m s) = []"
    and "currentOutput (before_audio m s) = []"
  using assms
  by (simp_all add: before_audio_def handle_turnComplete_def handle_transcription_def Let_def)

lemma before_audio_fragment:
  assumes "\<not> turnComplete m"
  shows "transcriptionHistory (before_audio m s) = transcriptionHistory s"
    and "currentInput (before_audio m s) = currentInput s @ transcription_text (inputTranscription m)"
    and "currentOutput (before_audio m s) = currentOutput s @ transcription_text (outputTranscription m)"
  using assms by (simp_all add: before_audio_def handle_transcription_def)

lemma onmessage_turnComplete:
  assumes "turnComplete m"
  shows "transcriptionHistory (snd (onmessage now m s)) =
           transcriptionHistory s
           @ (if blank (currentInput s @ transcription_text (inputTranscription m)) then []
              else [\<lparr>speaker = User, entry_text = currentInput s @ transcription_text (inputTranscription m)\<rparr>])
           @ (if blank (currentOutput s @ transcription_text (outputTranscription m)) then []
              else [\<lparr>speaker = Model, entry_text = currentOutput s @ transcription_text (outputTranscription m)\<rparr>])"
    and "currentInput (snd (onmessage now m s)) = []"
    and "currentOutput (snd (onmessage now m s)) = []"
  using before_audio_turnComplete[OF assms, of s] by (simp_all add: onmessage_transcript)

text \<open>
  Claim C4, amended. On a turn-complete marker the user-side accumulator (with the
  fragment the message itself brings) becomes a user entry when it holds a character that
  is not white space, then the model-side accumulator becomes a model entry under the same
  condition; an accumulator that is empty or all white space gives no entry; both
  accumulators are empty afterwards. So one entry is appended, a user entry, when only the
  user side is not blank, and two, user then model, when both are not blank.
\<close>

theorem turn_complete_flushes_accumulators:
  assumes "turnComplete m"
  shows "transcriptionHistory (snd (onmessage now m s)) =
           transcriptionHistory s
           @ (if blank (currentInput s @ transcription_text (inputTranscription m)) then []
              else [\<lparr>speaker = User, entry_text = currentInput s @ transcription_text (inputTranscription m)\<rparr>])
           @ (if blank (currentOutput s @ transcription_text (outputTranscription m)) then []
              else [\<lparr>speaker = Model, entry_text = currentOutput s @ transcription_text (outputTranscription m)\<rparr>])
         \<and> currentInput (snd (onmessage now m s)) = []
         \<and> currentOutput (snd (onmessage now m s)) = []"
  using onmessage_turnComplete[OF assms, of now s] by simp

lemma blank_eval: "blank (str ''hi'') = False" "blank (str ''ok'') = False" "blank [] = True" "blank (str '' '') = True"
  by (simp_all add: blank_def str_def js_whitespace_def)

text \<open>
  The three cases on the example session.
\<close>

theorem turn_complete_flushes_accumulators_witness:
  "turnComplete (no_content\<lparr>turnComplete := True\<rparr>)
   \<and> transcriptionHistory (snd (onmessage 0 (no_content\<lparr>turnComplete := True\<rparr>)
        (live_session\<lparr>currentInput := str ''hi''\<rparr>)))
       = [\<lparr>speaker = User, entry_text = str ''hi''\<rparr>]
   \<and> transcriptionHistory (snd (onmessage 0 (no_content\<lparr>turnComplete := True\<rparr>)
        (live_session\<lparr>currentInput := str ''hi'', currentOutput := str ''ok''\<rparr>)))
       = [\<lparr>speaker = User, entry_text = str ''hi''\<rparr>, \<lparr>speaker = Model, entry_text = str ''ok''\<rparr>]
   \<and> transcriptionHistory (snd (onmessage 0 (no_content\<lparr>turnComplete := True\<rparr>) live_session)) = []
   \<and> currentInput (snd (onmessage 0 (no_content\<lparr>turnComplete := True\<rparr>)
        (live_session\<lparr>currentInput := str ''hi'', currentOutput := str ''ok''\<rparr>))) = []
   \<and> currentOutput (snd (onmessage 0 (no_content\<lparr>turnComplete := True\<rparr>)
        (live_session\<lparr>currentInput := str ''hi'', currentOutput := str ''ok''\<rparr>))) = []"
proof -
  have t: "turnComplete (no_content\<lparr>turnComplete := True\<rparr>)" by simp
  show ?thesis
    using turn_complete_flushes_accumulators[OF t, of 0 "live_session\<lparr>currentInput := str ''hi''\<rparr>"]
      turn_complete_flushes_accumulators[OF t, of 0 "live_session\<lparr>currentInput := str ''hi'', currentOutput := str ''ok''\<rparr>"]
      turn_complete_flushes_accumulators[OF t, of 0 live_session]
    by (simp add: no_content_def transcription_text_def blank_eval live_session_eq)
qed

text \<open>
  Claim C4 as stated fails: after the fragment \<open>" "\<close> the user-side accumulator
  is not empty and the model-side one is, yet the marker appends no entry.
\<close>

theorem turn_complete_whitespace_counterexample:
  "currentInput (snd (onmessage 0 (no_content\<lparr>inputTranscription := Some (Some (str '' ''))\<rparr>) live_session))
     = str '' ''
   \<and> currentInput (snd (onmessage 0 (no_content\<lparr>inputTranscription := Some (Some (str '' ''))\<rparr>) live_session))
     \<noteq> []
   \<and> currentOutput (snd (onmessage 0 (no_content\<lparr>inputTranscription := Some (Some (str '' ''))\<rparr>) live_session))
     = []
   \<and> transcriptionHistory (snd (onmessage 0 (no_content\<lparr>turnComplete := True\<rparr>)
        (snd (onmessage 0 (no_content\<lparr>inputTranscription := Some (Some (str '' ''))\<rparr>) live_session))))
       = transcriptionHistory (snd (onmessage 0 (no_content\<lparr>inputTranscription := Some (Some (str '' ''))\<rparr>) live_session))"
  by (simp add: onmessage_transcript before_audio_def handle_turnComplete_def handle_transcription_def
      no_content_def transcription_text_def blank_eval live_session_eq Let_def) (simp add: str_def)

lemma connects_append: "connects (xs @ ys) = connects xs @ connects ys"
  by (simp add: connects_def)

lemma connects_stops: "connects (map TrackStop hs) = []" "connects (map SourceStop hs) = []"
  by (induction hs) (simp_all add: connects_def)

lemma connects_stop_calls: "connects (stop_calls s) = []"
  by (simp add: stop_calls_def connects_append connects_stops split: option.splits)
     (simp add: connects_def)

text \<open>
  Claim C7. When the request for the microphone fails, \<open>handleStart\<close> returns with the
  status message and the error reporting the denial; the session is not activated (the
  flag keeps its value, \<open>False\<close> from the initial state), no session is opened (the ref
  keeps its value and no call is made), and no stream or context is created.
\<close>

theorem microphone_denied_leaves_session_idle:
  "statusMessage (handleStart (Inl e) s) = str ''Microphone access denied.''
   \<and> error (handleStart (Inl e) s)
       = Some (str ''Microphone access denied. Please allow microphone access in your browser settings.'')
   \<and> isSessionActive (handleStart (Inl e) s) = isSessionActive s
   \<and> sessionPromiseRef (handleStart (Inl e) s) = sessionPromiseRef s
   \<and> calls (handleStart (Inl e) s) = calls s
   \<and> streamRef (handleStart (Inl e) s) = streamRef s
   \<and> ctx_input (handleStart (Inl e) s) = ctx_input s
   \<and> ctx_output (handleStart (Inl e) s) = ctx_output s
   \<and> isSessionActive (handleStart (Inl e) initial_state) = False
   \<and> sessionPromiseRef (handleStart (Inl e) initial_state) = None
   \<and> connects (calls (handleStart (Inl e) initial_state)) = []"
  by (simp add: handleStart_def initial_state_def connects_def)

text \<open>
  Claim C8, amended. On a connection error the error string is \<open>Connection error: \<close>
  followed by the transport's message; the session is stopped: every ref is cleared, the
  active buffer set is empty, the session is inactive, the calls made are exactly the
  releases \<open>stop_calls\<close>, and no session is opened again.
\<close>

theorem connection_error_stops_session:
  "error (onerror msg s) = Some (str ''Connection error: '' @ msg)
   \<and> isSessionActive (onerror msg s) = False
   \<and> statusMessage (onerror msg s) = str ''Session ended. Click Start to begin again.''
   \<and> sessionPromiseRef (onerror msg s) = None
   \<and> streamRef (onerror msg s) = None
   \<and> ctx_input (onerror msg s) = None
   \<and> ctx_output (onerror msg s) = None
   \<and> ctx_processor (onerror msg s) = None
   \<and> ctx_source (onerror msg s) = None
   \<and> sources (onerror msg s) = []
   \<and> calls (onerror msg s) = calls s @ stop_calls s
   \<and> connects (calls (onerror msg s)) = connects (calls s)"
  by (simp add: onerror_def handleStop_eq connects_append connects_stop_calls)
     (simp add: stop_calls_def)

text \<open>
  The example session after the error \<open>reset\<close>.
\<close>

theorem connection_error_stops_session_witness:
  "error (onerror (str ''reset'') live_session) = Some (str ''Connection error: reset'')
   \<and> isSessionActive (onerror (str ''reset'') live_session) = False
   \<and> calls (onerror (str ''reset'') live_session)
       = [Connect 3, TrackStop 7, NodeDisconnect 5, NodeDisconnect 4,
          ContextClose 1, ContextClose 2, SessionClose 3]"
  using connection_error_stops_session[of "str ''reset''" live_session]
  by (simp add: live_session_eq stop_calls_def str_def)

text \<open>
  Claim C8 as stated fails: the error string is not the transport's message itself.
\<close>

theorem connection_error_verbatim_counterexample:
  "error (onerror (str ''reset'') live_session) = Some (str ''Connection error: reset'')
   \<and> error (onerror (str ''reset'') live_session) \<noteq> Some (str ''reset'')"
  by (simp add: onerror_def handleStop_eq str_def)

lemma run_messages_fragments:
  assumes "\<forall>(now, m) \<in> set evs. \<not> turnComplete m"
  shows "currentInput (run_messages evs s) = currentInput s @ input_fragments evs
       \<and> currentOutput (run_messages evs s) = currentOutput s @ output_fragments evs
       \<and> transcriptionHistory (run_messages evs s) = transcriptionHistory s"
  using assms
proof (induction evs arbitrary: s)
  case Nil
  then show ?case by (simp add: input_fragments_def output_fragments_def)
next
  case (Cons ev evs)
  obtain now m where ev: "ev = (now, m)" by (cases ev)
  with Cons.prems have m: "\<not> turnComplete m" and rest: "\<forall>(now, m) \<in> set evs. \<not> turnComplete m"
    by auto
  from Cons.IH[OF rest, of "snd (onmessage now m s)"] show ?case
    using ev before_audio_fragment[OF m, of s]
    by (simp add: onmessage_transcript input_fragments_def output_fragments_def)
qed

lemma restart_keeps_accumulators:
  "currentInput (handleStop s) = currentInput s"
  "currentOutput (handleStop s) = currentOutput s"
  "currentInput (handleStart media s) = currentInput s"
  "currentOutput (handleStart media s) = currentOutput s"
  "transcriptionHistory (handleStart media s) = []"
  by (simp_all add: handleStop_eq handleStart_def Let_def split: sum.splits option.splits)

text \<open>
  Claim C10, amended. \<open>handleStop\<close> and \<open>handleStart\<close> leave both accumulators as they
  are; \<open>handleStart\<close> empties only the history. The text left over is therefore in front
  of the fragments of the next session. At the first turn-complete marker of that session
  the entry of a direction is the left-over text followed by the new fragments, when that
  text holds a character that is not white space; when it is blank there is no entry. Either
  way the marker empties both accumulators.
\<close>

theorem accumulators_survive_restart:
  assumes "\<forall>(now, m) \<in> set evs. \<not> turnComplete m" and "turnComplete m"
  shows "currentInput (handleStop s) = currentInput s
       \<and> currentOutput (handleStop s) = currentOutput s
       \<and> currentInput (handleStart media (handleStop s)) = currentInput s
       \<and> currentOutput (handleStart media (handleStop s)) = currentOutput s
       \<and> transcriptionHistory (handleStart media (handleStop s)) = []
       \<and> currentInput (run_messages evs (handleStart media (handleStop s)))
           = currentInput s @ input_fragments evs
       \<and> currentOutput (run_messages evs (handleStart media (handleStop s)))
           = currentOutput s @ output_fragments evs
       \<and> transcriptionHistory (snd (onmessage now m (run_messages evs (handleStart media (handleStop s)))))
           = (if blank (currentInput s @ input_fragments evs @ transcription_text (inputTranscription m)) then []
              else [\<lparr>speaker = User,
                     entry_text = currentInput s @ input_fragments evs @ transcription_text (inputTranscription m)\<rparr>])
           @ (if blank (currentOutput s @ output_fragments evs @ transcription_text (outputTranscription m)) then []
              else [\<lparr>speaker = Model,
                     entry_text = currentOutput s @ output_fragments evs @ transcription_text (outputTranscription m)\<rparr>])
       \<and> currentInput (snd (onmessage now m (run_messages evs (handleStart media (handleStop s))))) = []
       \<and> currentOutput (snd (onmessage now m (run_messages evs (handleStart media (handleStop s))))) = []"
proof -
  let ?s2 = "handleStart media (handleStop s)"
  have a: "currentInput ?s2 = currentInput s" "currentOutput ?s2 = currentOutput s"
      "transcriptionHistory ?s2 = []"
    by (simp_all add: restart_keeps_accumulators)
  from run_messages_fragments[OF assms(1), of ?s2]
  have r: "currentInput (run_messages evs ?s2) = currentInput s @ input_fragments evs"
      "currentOutput (run_messages evs ?s2) = currentOutput s @ output_fragments evs"
      "transcriptionHistory (run_messages evs ?s2) = []"
    using a by simp_all
  from onmessage_turnComplete[OF assms(2), of now "run_messages evs ?s2"]
  show ?thesis
    using a r by (simp add: restart_keeps_accumulators)
qed

text \<open>
  A session stopped with \<open>hi\<close> pending: the first user entry of the next one is
  \<open>hi you\<close>.
\<close>

theorem accumulators_survive_restart_witness:
  "\<not> turnComplete (no_content\<lparr>inputTranscription := Some (Some (str '' you''))\<rparr>)
   \<and> turnComplete (no_content\<lparr>turnComplete := True\<rparr>)
   \<and> currentInput (handleStop (live_session\<lparr>currentInput := str ''hi''\<rparr>)) = str ''hi''
   \<and> currentInput (handleStart (Inr [8]) (handleStop (live_session\<lparr>currentInput := str ''hi''\<rparr>))) = str ''hi''
   \<and> transcriptionHistory (snd (onmessage 0 (no_content\<lparr>turnComplete := True\<rparr>)
        (run_messages [(0, no_content\<lparr>inputTranscription := Some (Some (str '' you''))\<rparr>)]
          (handleStart (Inr [8]) (handleStop (live_session\<lparr>currentInput := str ''hi''\<rparr>))))))
       = [\<lparr>speaker = User, entry_text = str ''hi you''\<rparr>]"
proof -
  have h1: "\<forall>(now, m) \<in> set [(0 :: real, no_content\<lparr>inputTranscription := Some (Some (str '' you''))\<rparr>)].
              \<not> turnComplete m"
    by (simp add: no_content_def)
  have h2: "turnComplete (no_content\<lparr>turnComplete := True\<rparr>)" by simp
  have b: "blank (str ''hi you'') = False"
    by (simp add: blank_def str_def js_whitespace_def)
  have c: "str ''hi'' @ str '' you'' = str ''hi you''" by (simp add: str_def)
  from accumulators_survive_restart[OF h1 h2, of "live_session\<lparr>currentInput := str ''hi''\<rparr>" "Inr [8]" 0]
  show ?thesis
    using b c
    by (simp add: no_content_def input_fragments_def output_fragments_def transcription_text_def
        live_session_eq blank_eval)
qed

text \<open>
  Claim C10 as stated fails for a left-over of white space: a session stopped with
  \<open>" "\<close> pending, then started again; a turn-complete marker, the fragment \<open>hello\<close>
  and a second marker give the first user entry \<open>hello\<close>, without the left-over.
\<close>

theorem blank_leftover_dropped_counterexample:
  "currentInput (snd (onmessage 0 (no_content\<lparr>inputTranscription := Some (Some (str '' ''))\<rparr>) live_session))
     = str '' ''
   \<and> currentInput (handleStart (Inr [8]) (handleStop
        (snd (onmessage 0 (no_content\<lparr>inputTranscription := Some (Some (str '' ''))\<rparr>) live_session))))
     = str '' ''
   \<and> transcriptionHistory (run_messages
        [(0, no_content\<lparr>turnComplete := True\<rparr>),
         (0, no_content\<lparr>inputTranscription := Some (Some (str ''hello''))\<rparr>),
         (0, no_content\<lparr>turnComplete := True\<rparr>)]
        (handleStart (Inr [8]) (handleStop
          (snd (onmessage 0 (no_content\<lparr>inputTranscription := Some (Some (str '' ''))\<rparr>) live_session)))))
     = [\<lparr>speaker = User, entry_text = str ''hello''\<rparr>]
   \<and> transcriptionHistory (run_messages
        [(0, no_content\<lparr>turnComplete := True\<rparr>),
         (0, no_content\<lparr>inputTranscription := Some (Some (str ''hello''))\<rparr>),
         (0, no_content\<lparr>turnComplete := True\<rparr>)]
        (handleStart (Inr [8]) (handleStop
          (snd (onmessage 0 (no_content\<lparr>inputTranscription := Some (Some (str '' ''))\<rparr>) live_session)))))
     \<noteq> [\<lparr>speaker = User, entry_text = str '' hello''\<rparr>]"
proof -
  define s0 where
    "s0 = snd (onmessage 0 (no_content\<lparr>inputTranscription := Some (Some (str '' ''))\<rparr>) live_session)"
  define s2 where "s2 = handleStart (Inr [8]) (handleStop s0)"
  define s3 where "s3 = snd (onmessage 0 (no_content\<lparr>turnComplete := True\<rparr>) s2)"
  define s4 where
    "s4 = snd (onmessage 0 (no_content\<lparr>inputTranscription := Some (Some (str ''hello''))\<rparr>) s3)"
  have t: "turnComplete (no_content\<lparr>turnComplete := True\<rparr>)"
    and f: "\<not> turnComplete (no_content\<lparr>inputTranscription := Some (Some (str ''hello''))\<rparr>)"
      "\<not> turnComplete (no_content\<lparr>inputTranscription := Some (Some (str '' ''))\<rparr>)"
    by (simp_all add: no_content_def)
  have n: "transcription_text (inputTranscription no_content) = []"
      "transcription_text (outputTranscription no_content) = []"
    by (simp_all add: no_content_def transcription_text_def)
  have tt: "transcription_text (Some (Some x)) = x" for x
    by (simp add: transcription_text_def)
  have b: "blank (str '' '')" "blank []" "\<not> blank (str ''hello'')"
    by (simp_all add: blank_def js_whitespace_def str_def)
  have l: "currentInput live_session = []" "currentOutput live_session = []"
    by (simp_all add: live_session_eq)
  have s0: "currentInput s0 = str '' ''" "currentOutput s0 = []"
    using before_audio_fragment[OF f(2), of live_session]
    by (simp_all add: s0_def onmessage_transcript l n tt)
  have s2: "currentInput s2 = str '' ''" "currentOutput s2 = []" "transcriptionHistory s2 = []"
    using s0 by (simp_all add: s2_def restart_keeps_accumulators)
  have s3: "transcriptionHistory s3 = []" "currentInput s3 = []" "currentOutput s3 = []"
    using onmessage_turnComplete[OF t, of 0 s2] by (simp_all add: s3_def s2 n b)
  have s4: "transcriptionHistory s4 = []" "currentInput s4 = str ''hello''" "currentOutput s4 = []"
    using before_audio_fragment[OF f(1), of s3]
    by (simp_all add: s4_def onmessage_transcript s3 n tt)
  have "transcriptionHistory (snd (onmessage 0 (no_content\<lparr>turnComplete := True\<rparr>) s4))
      = [\<lparr>speaker = User, entry_text = str ''hello''\<rparr>]"
    using onmessage_turnComplete(1)[OF t, of 0 s4] by (simp add: s4 n b)
  then have r: "transcriptionHistory (run_messages
        [(0, no_content\<lparr>turnComplete := True\<rparr>),
         (0, no_content\<lparr>inputTranscription := Some (Some (str ''hello''))\<rparr>),
         (0, no_content\<lparr>turnComplete := True\<rparr>)] s2)
     = [\<lparr>speaker = User, entry_text = str ''hello''\<rparr>]"
    by (simp add: s4_def s3_def)
  have ne: "[\<lparr>speaker = User, entry_text = str ''hello''\<rparr>]
      \<noteq> [\<lparr>speaker = User, entry_text = str '' hello''\<rparr>]"
    by (simp add: str_def)
  from r ne have r': "transcriptionHistory (run_messages
        [(0, no_content\<lparr>turnComplete := True\<rparr>),
         (0, no_content\<lparr>inputTranscription := Some (Some (str ''hello''))\<rparr>),
         (0, no_content\<lparr>turnComplete := True\<rparr>)] s2)
     \<noteq> [\<lparr>speaker = User, entry_text = str '' hello''\<rparr>]"
    by simp
  show ?thesis
    using s0(1)[unfolded s0_def] s2(1)[unfolded s2_def s0_def] r[unfolded s2_def s0_def]
      r'[unfolded s2_def s0_def]
    by blast
qed

lemma duration_nonneg: "0 \<le> duration b"
  by (simp add: duration_def)

lemma before_audio_playback:
  "nextStartTime (before_audio m s) = nextStartTime s"
  "calls (before_audio m s) = calls s"
  "sources (before_audio m s) = sources s"
  "fresh (before_audio m s) = fresh s"
  "ctx_output (before_audio m s) = ctx_output s"
  by (simp_all add: before_audio_def handle_turnComplete_def handle_transcription_def Let_def)

lemma handle_audio_scheduled:
  assumes "ctx_output s = Some c" and "decode a = Inr bytes"
    and "decodeAudioData bytes 24000 1 = Inr buf"
  shows "handle_audio now a s =
           (None, s\<lparr>nextStartTime := max (nextStartTime s) now + duration buf,
                    calls := calls s @ [SourceStart (fresh s) (max (nextStartTime s) now) buf],
                    sources := sources s @ [fresh s],
                    fresh := fresh s + 1\<rparr>)"
  using assms by (simp add: handle_audio_def Let_def)

lemma handle_audio_thrown:
  assumes "handle_audio now a s = (Some err, s')"
  shows "calls s' = calls s" and "sources s' = sources s" and "fresh s' = fresh s"
    and "nextStartTime s' = nextStartTime s \<or> nextStartTime s' = max (nextStartTime s) now"
  using assms by (auto simp: handle_audio_def Let_def split: option.splits sum.splits)

lemma handle_audio_returned:
  assumes "handle_audio now a s = (None, s')"
  shows "\<exists>buf. calls s' = calls s @ [SourceStart (fresh s) (max (nextStartTime s) now) buf]
             \<and> nextStartTime s' = max (nextStartTime s) now + duration buf
             \<and> sources s' = sources s @ [fresh s]"
  using assms by (auto simp: handle_audio_def Let_def split: option.splits sum.splits)

text \<open>What one message that is not an interruption does to the clock and to the calls.\<close>

lemma onmessage_playback:
  assumes "\<not> interrupted m"
  shows "(calls (snd (onmessage now m s)) = calls s
            \<and> nextStartTime s \<le> nextStartTime (snd (onmessage now m s)))
       \<or> (\<exists>start buf. nextStartTime s \<le> start
            \<and> calls (snd (onmessage now m s)) = calls s @ [SourceStart (fresh s) start buf]
            \<and> nextStartTime (snd (onmessage now m s)) = start + duration buf)"
proof (cases "playable m")
  case None
  then show ?thesis using assms by (simp add: onmessage_no_audio before_audio_playback)
next
  case (Some a)
  obtain e s3 where h: "handle_audio now a (before_audio m s) = (e, s3)" by force
  show ?thesis
  proof (cases e)
    case None
    with h handle_audio_returned[of now a "before_audio m s" s3]
    obtain buf where "calls s3 = calls s @ [SourceStart (fresh s) (max (nextStartTime s) now) buf]"
        "nextStartTime s3 = max (nextStartTime s) now + duration buf"
      by (auto simp: before_audio_playback)
    moreover have "snd (onmessage now m s) = s3"
      using Some h None assms by (simp add: onmessage_audio)
    ultimately show ?thesis by auto
  next
    case (Some err)
    with h handle_audio_thrown[of now a "before_audio m s" err s3]
    have "calls s3 = calls s" "nextStartTime s \<le> nextStartTime s3"
      by (auto simp: before_audio_playback)
    moreover have "snd (onmessage now m s) = s3"
      using \<open>playable m = Some a\<close> h Some by (simp add: onmessage_audio)
    ultimately show ?thesis by simp
  qed
qed

lemma scheduled_append: "scheduled (xs @ ys) = scheduled xs @ scheduled ys"
  by (simp add: scheduled_def)

lemma scheduled_start: "scheduled [SourceStart h start b] = [(start, duration b)]"
  by (simp add: scheduled_def)

lemma non_overlapping_snoc:
  "non_overlapping (xs @ [(start, d)]) \<longleftrightarrow> non_overlapping xs \<and> ends_by xs start"
  by (induction xs rule: non_overlapping.induct) (auto simp: ends_by_def)

lemma ends_by_mono: "ends_by xs t \<Longrightarrow> t \<le> t' \<Longrightarrow> ends_by xs t'"
  by (auto simp: ends_by_def)

lemma run_messages_non_overlapping:
  assumes "\<forall>(now, m) \<in> set evs. \<not> interrupted m"
    and "base \<le> length (calls s)"
    and "non_overlapping (scheduled (drop base (calls s)))"
    and "ends_by (scheduled (drop base (calls s))) (nextStartTime s)"
  shows "non_overlapping (scheduled (drop base (calls (run_messages evs s))))"
  using assms
proof (induction evs arbitrary: s)
  case Nil
  then show ?case by simp
next
  case (Cons ev evs)
  obtain now m where ev: "ev = (now, m)" by (cases ev)
  with Cons.prems(1) have m: "\<not> interrupted m" and rest: "\<forall>(now, m) \<in> set evs. \<not> interrupted m"
    by auto
  let ?s' = "snd (onmessage now m s)"
  have "base \<le> length (calls ?s')
      \<and> non_overlapping (scheduled (drop base (calls ?s')))
      \<and> ends_by (scheduled (drop base (calls ?s'))) (nextStartTime ?s')"
    using onmessage_playback[OF m, of now s]
  proof (elim disjE exE conjE)
    assume "calls ?s' = calls s" "nextStartTime s \<le> nextStartTime ?s'"
    then show ?thesis
      using Cons.prems(2-4) ends_by_mono by auto
  next
    fix start buf
    assume a: "nextStartTime s \<le> start" "calls ?s' = calls s @ [SourceStart (fresh s) start buf]"
      "nextStartTime ?s' = start + duration buf"
    have "scheduled (drop base (calls ?s')) = scheduled (drop base (calls s)) @ [(start, duration buf)]"
      using a(2) Cons.prems(2) by (simp add: scheduled_append scheduled_start)
    then show ?thesis
      using a Cons.prems(2-4) ends_by_mono[OF Cons.prems(4) a(1)]
      by (simp add: non_overlapping_snoc ends_by_def)
  qed
  then show ?case
    using Cons.IH[OF rest, of ?s'] ev by simp
qed

lemma decode_two_bytes: "decode (str ''AAA='') = Inr [0, 0]"
  by (simp add: decode_def atob_def strip_padding_def ascii_whitespace_def b64_index_def str_def Let_def)

lemma decode_four_bytes: "decode (str ''AAAAAA=='') = Inr [0, 0, 0, 0]"
  by (simp add: decode_def atob_def strip_padding_def ascii_whitespace_def b64_index_def str_def Let_def)

lemma decodeAudioData_one_frame:
  "decodeAudioData [0, 0] 24000 1 = Inr \<lparr>sampleRate = 24000, frames = 1, channels = [[0]]\<rparr>"
  by (simp add: decodeAudioData_def Int16Array_of_buffer_def Let_def)

lemma decodeAudioData_two_frames:
  "decodeAudioData [0, 0, 0, 0] 24000 1 = Inr \<lparr>sampleRate = 24000, frames = 2, channels = [[0, 0]]\<rparr>"
  by (simp add: decodeAudioData_def Int16Array_of_buffer_def Let_def upt_rec)

lemma onmessage_scheduled:
  assumes "audioData m = Some a" and "a \<noteq> []" and "ctx_output s = Some c"
    and "decode a = Inr bytes" and "decodeAudioData bytes 24000 1 = Inr buf"
  shows "onmessage now m s =
           (None,
            (if interrupted m then handle_interrupted else (\<lambda>s. s))
              ((before_audio m s)
                 \<lparr>nextStartTime := max (nextStartTime s) now + duration buf,
                  calls := calls s @ [SourceStart (fresh s) (max (nextStartTime s) now) buf],
                  sources := sources s @ [fresh s],
                  fresh := fresh s + 1\<rparr>))"
proof -
  have p: "playable m = Some a" using assms(1,2) by (simp add: playable_def)
  have "ctx_output (before_audio m s) = Some c" using assms(3) by (simp add: before_audio_playback)
  from handle_audio_scheduled[OF this assms(4,5), of now]
  show ?thesis by (simp add: onmessage_audio[OF p] before_audio_playback)
qed

text \<open>
  Claim C1. A message that is not an interruption and whose audio fragment decodes has its
  buffer started at \<open>max nextStartTime now\<close>, \<open>now\<close> being the device time at that
  moment, and leaves the clock at that start plus the buffer's duration. Over any run of
  messages without an interruption, the buffers started during the run do not overlap:
  each starts no earlier than the start of the one before plus its duration.
\<close>

theorem audio_fragments_play_back_to_back:
  "(\<not> interrupted m \<and> audioData m = Some a \<and> a \<noteq> [] \<and> ctx_output s = Some c
      \<and> decode a = Inr bytes \<and> decodeAudioData bytes 24000 1 = Inr buf \<longrightarrow>
        fst (onmessage now m s) = None
      \<and> calls (snd (onmessage now m s))
          = calls s @ [SourceStart (fresh s) (max (nextStartTime s) now) buf]
      \<and> nextStartTime (snd (onmessage now m s)) = max (nextStartTime s) now + duration buf
      \<and> sources (snd (onmessage now m s)) = sources s @ [fresh s])
   \<and> ((\<forall>(now, m) \<in> set evs. \<not> interrupted m) \<longrightarrow>
        non_overlapping (scheduled (drop (length (calls s)) (calls (run_messages evs s)))))"
proof (intro conjI impI)
  assume a: "\<not> interrupted m \<and> audioData m = Some a \<and> a \<noteq> [] \<and> ctx_output s = Some c
      \<and> decode a = Inr bytes \<and> decodeAudioData bytes 24000 1 = Inr buf"
  then have "onmessage now m s =
      (None, (before_audio m s)
                 \<lparr>nextStartTime := max (nextStartTime s) now + duration buf,
                  calls := calls s @ [SourceStart (fresh s) (max (nextStartTime s) now) buf],
                  sources := sources s @ [fresh s],
                  fresh := fresh s + 1\<rparr>)"
    using onmessage_scheduled[of m a s c bytes buf now] by simp
  then show "fst (onmessage now m s) = None"
    and "calls (snd (onmessage now m s))
          = calls s @ [SourceStart (fresh s) (max (nextStartTime s) now) buf]"
    and "nextStartTime (snd (onmessage now m s)) = max (nextStartTime s) now + duration buf"
    and "sources (snd (onmessage now m s)) = sources s @ [fresh s]"
    by simp_all
next
  assume "\<forall>(now, m) \<in> set evs. \<not> interrupted m"
  then show "non_overlapping (scheduled (drop (length (calls s)) (calls (run_messages evs s))))"
    by (rule run_messages_non_overlapping) (simp_all add: scheduled_def ends_by_def)
qed

lemma live_session_fragment:
  assumes "0 \<le> now"
  shows "onmessage now (no_content\<lparr>audioData := Some (str ''AAA='')\<rparr>) live_session
   = (None, live_session\<lparr>nextStartTime := now + 1 / 24000,
          calls := [Connect 3, SourceStart 6 now \<lparr>sampleRate = 24000, frames = 1, channels = [[0]]\<rparr>],
          sources := [6], fresh := 7\<rparr>)"
proof -
  have "audioData (no_content\<lparr>audioData := Some (str ''AAA='')\<rparr>) = Some (str ''AAA='')"
    and "str ''AAA='' \<noteq> []" and "ctx_output live_session = Some 2"
    by (simp_all add: str_def live_session_eq)
  from onmessage_scheduled[OF this decode_two_bytes decodeAudioData_one_frame, of now]
  show ?thesis
    using assms
    by (simp add: live_session_eq no_content_def before_audio_def handle_transcription_def
        transcription_text_def duration_def max_def)
qed

lemma live_session_two_fragments:
  "calls (run_messages
      [(0, no_content\<lparr>audioData := Some (str ''AAA='')\<rparr>),
       (0, no_content\<lparr>audioData := Some (str ''AAAAAA=='')\<rparr>)] live_session)
   = [Connect 3,
      SourceStart 6 0 \<lparr>sampleRate = 24000, frames = 1, channels = [[0]]\<rparr>,
      SourceStart 7 (1 / 24000) \<lparr>sampleRate = 24000, frames = 2, channels = [[0, 0]]\<rparr>]"
proof -
  let ?s1 = "live_session\<lparr>nextStartTime := 1 / 24000,
          calls := [Connect 3, SourceStart 6 0 \<lparr>sampleRate = 24000, frames = 1, channels = [[0]]\<rparr>],
          sources := [6], fresh := 7\<rparr>"
  have "audioData (no_content\<lparr>audioData := Some (str ''AAAAAA=='')\<rparr>) = Some (str ''AAAAAA=='')"
    and "str ''AAAAAA=='' \<noteq> []" and "ctx_output ?s1 = Some 2"
    by (simp_all add: str_def live_session_eq)
  from onmessage_scheduled[OF this decode_four_bytes decodeAudioData_two_frames, of 0]
  have "calls (snd (onmessage 0 (no_content\<lparr>audioData := Some (str ''AAAAAA=='')\<rparr>) ?s1))
      = [Connect 3,
      SourceStart 6 0 \<lparr>sampleRate = 24000, frames = 1, channels = [[0]]\<rparr>,
      SourceStart 7 (1 / 24000) \<lparr>sampleRate = 24000, frames = 2, channels = [[0, 0]]\<rparr>]"
    by (simp add: no_content_def)
  then show ?thesis by (simp add: live_session_fragment[of 0, simplified])
qed

text \<open>
  Two fragments, of one and of two frames, arriving at device time \<open>0\<close>.
\<close>

theorem audio_fragments_play_back_to_back_witness:
  "\<not> interrupted (no_content\<lparr>audioData := Some (str ''AAA='')\<rparr>)
   \<and> \<not> interrupted (no_content\<lparr>audioData := Some (str ''AAAAAA=='')\<rparr>)
   \<and> audioData (no_content\<lparr>audioData := Some (str ''AAA='')\<rparr>) = Some (str ''AAA='')
   \<and> str ''AAA='' \<noteq> []
   \<and> ctx_output live_session = Some 2
   \<and> decode (str ''AAA='') = Inr [0, 0]
   \<and> decodeAudioData [0, 0] 24000 1 = Inr \<lparr>sampleRate = 24000, frames = 1, channels = [[0]]\<rparr>
   \<and> fst (onmessage 0 (no_content\<lparr>audioData := Some (str ''AAA='')\<rparr>) live_session) = None
   \<and> calls (snd (onmessage 0 (no_content\<lparr>audioData := Some (str ''AAA='')\<rparr>) live_session))
       = [Connect 3, SourceStart 6 0 \<lparr>sampleRate = 24000, frames = 1, channels = [[0]]\<rparr>]
   \<and> nextStartTime (snd (onmessage 0 (no_content\<lparr>audioData := Some (str ''AAA='')\<rparr>) live_session))
       = 1 / 24000
   \<and> scheduled (drop 1 (calls (run_messages
        [(0, no_content\<lparr>audioData := Some (str ''AAA='')\<rparr>),
         (0, no_content\<lparr>audioData := Some (str ''AAAAAA=='')\<rparr>)] live_session)))
       = [(0, 1 / 24000), (1 / 24000, 1 / 12000)]
   \<and> non_overlapping (scheduled (drop 1 (calls (run_messages
        [(0, no_content\<lparr>audioData := Some (str ''AAA='')\<rparr>),
         (0, no_content\<lparr>audioData := Some (str ''AAAAAA=='')\<rparr>)] live_session))))"
proof -
  let ?m1 = "no_content\<lparr>audioData := Some (str ''AAA='')\<rparr>"
  let ?m2 = "no_content\<lparr>audioData := Some (str ''AAAAAA=='')\<rparr>"
  let ?buf = "\<lparr>sampleRate = 24000, frames = 1, channels = [[0]]\<rparr>"
  have h: "\<not> interrupted ?m1 \<and> audioData ?m1 = Some (str ''AAA='') \<and> str ''AAA='' \<noteq> []
      \<and> ctx_output live_session = Some 2
      \<and> decode (str ''AAA='') = Inr [0, 0] \<and> decodeAudioData [0, 0] 24000 1 = Inr ?buf"
    using decode_two_bytes decodeAudioData_one_frame
    by (simp add: no_content_def live_session_eq str_def)
  have h2: "\<forall>(now, m) \<in> set [(0 :: real, ?m1), (0, ?m2)]. \<not> interrupted m"
    by (simp add: no_content_def)
  note t = audio_fragments_play_back_to_back[of ?m1 "str ''AAA=''" live_session 2 "[0, 0]" ?buf 0
      "[(0, ?m1), (0, ?m2)]"]
  have c: "calls live_session = [Connect 3]" "nextStartTime live_session = 0" "fresh live_session = 6"
    by (simp_all add: live_session_eq)
  from t h have "fst (onmessage 0 ?m1 live_session) = None
     \<and> calls (snd (onmessage 0 ?m1 live_session))
          = calls live_session @ [SourceStart (fresh live_session) (max (nextStartTime live_session) 0) ?buf]
     \<and> nextStartTime (snd (onmessage 0 ?m1 live_session))
          = max (nextStartTime live_session) 0 + duration ?buf"
    by blast
  then have 1: "fst (onmessage 0 ?m1 live_session) = None
     \<and> calls (snd (onmessage 0 ?m1 live_session)) = [Connect 3, SourceStart 6 0 ?buf]
     \<and> nextStartTime (snd (onmessage 0 ?m1 live_session)) = 1 / 24000"
    by (simp add: c duration_def)
  from t h2 have "non_overlapping (scheduled (drop (length (calls live_session))
      (calls (run_messages [(0, ?m1), (0, ?m2)] live_session))))"
    by blast
  then have 2: "non_overlapping (scheduled (drop 1
      (calls (run_messages [(0, ?m1), (0, ?m2)] live_session))))"
    by (simp add: c)
  have 3: "scheduled (drop 1 (calls (run_messages [(0, ?m1), (0, ?m2)] live_session)))
       = [(0, 1 / 24000), (1 / 24000, 1 / 12000)]"
    by (simp only: live_session_two_fragments) (simp add: scheduled_def duration_def)
  have 4: "\<not> interrupted ?m2" by (simp add: no_content_def)
  show ?thesis
    using h 1 2 3 4 by blast
qed

lemma before_audio_interrupted:
  "before_audio (m\<lparr>interrupted := b\<rparr>) s = before_audio m s"
  "playable (m\<lparr>interrupted := b\<rparr>) = playable m"
  by (simp_all add: before_audio_def playable_def handle_transcription_def)

lemma onmessage_interrupted:
  assumes "interrupted m" and "onmessage now (m\<lparr>interrupted := False\<rparr>) s = (None, s1)"
  shows "onmessage now m s = (None, handle_interrupted s1)"
    and "set (sources s) \<subseteq> set (sources s1)"
proof -
  show "onmessage now m s = (None, handle_interrupted s1)"
  proof (cases "playable m")
    case None
    then show ?thesis
      using assms by (simp add: onmessage_no_audio before_audio_interrupted)
  next
    case (Some a)
    then show ?thesis
      using assms
      by (auto simp: onmessage_audio before_audio_interrupted split: prod.splits option.splits)
  qed
  show "set (sources s) \<subseteq> set (sources s1)"
  proof (cases "playable m")
    case None
    then show ?thesis
      using assms(2) by (auto simp: onmessage_no_audio before_audio_interrupted before_audio_playback)
  next
    case (Some a)
    then have "handle_audio now a (before_audio m s) = (None, s1)"
      using assms(2)
      by (auto simp: onmessage_audio before_audio_interrupted split: prod.splits option.splits)
    from handle_audio_returned[OF this] show ?thesis
      by (auto simp: before_audio_playback)
  qed
qed

text \<open>
  Claim C2, amended. A message with the interruption flag, once the rest of it has been
  handled without an exception (state \<open>s1\<close>), stops every buffer source in the active set
  of \<open>s1\<close>, which holds all that were active before, empties the set and sets the clock
  to \<open>0\<close>, not to the device time. A fragment that comes later, at a device time that is
  not negative, therefore starts at that device time.
\<close>

theorem interruption_stops_playback:
  assumes "interrupted m" and "onmessage now (m\<lparr>interrupted := False\<rparr>) s = (None, s1)"
  shows "onmessage now m s =
           (None, s1\<lparr>calls := calls s1 @ map SourceStop (sources s1), sources := [], nextStartTime := 0\<rparr>)
       \<and> set (sources s) \<subseteq> set (sources s1)
       \<and> sources (snd (onmessage now m s)) = []
       \<and> nextStartTime (snd (onmessage now m s)) = 0
       \<and> max (nextStartTime (snd (onmessage now m s))) \<bar>later\<bar> = \<bar>later\<bar>"
  using onmessage_interrupted[OF assms] by (simp add: handle_interrupted_def)

lemma live_session_after_fragment:
  "snd (onmessage 5 (no_content\<lparr>audioData := Some (str ''AAA='')\<rparr>) live_session)
   = live_session\<lparr>nextStartTime := 5 + 1 / 24000,
          calls := [Connect 3, SourceStart 6 5 \<lparr>sampleRate = 24000, frames = 1, channels = [[0]]\<rparr>],
          sources := [6], fresh := 7\<rparr>"
  by (simp add: live_session_fragment)

lemma onmessage_marker:
  "onmessage now (no_content\<lparr>interrupted := b\<rparr>) s = (None, if b then handle_interrupted s else s)"
  by (simp add: onmessage_no_audio playable_def no_content_def before_audio_def
      handle_transcription_def transcription_text_def)

text \<open>
  A fragment at device time \<open>5\<close>, interrupted at once.
\<close>

theorem interruption_stops_playback_witness:
  "interrupted (no_content\<lparr>interrupted := True\<rparr>)
   \<and> onmessage 5 (no_content\<lparr>interrupted := True, interrupted := False\<rparr>)
        (snd (onmessage 5 (no_content\<lparr>audioData := Some (str ''AAA='')\<rparr>) live_session))
       = (None, snd (onmessage 5 (no_content\<lparr>audioData := Some (str ''AAA='')\<rparr>) live_session))
   \<and> sources (snd (onmessage 5 (no_content\<lparr>audioData := Some (str ''AAA='')\<rparr>) live_session)) = [6]
   \<and> sources (snd (onmessage 5 (no_content\<lparr>interrupted := True\<rparr>)
        (snd (onmessage 5 (no_content\<lparr>audioData := Some (str ''AAA='')\<rparr>) live_session)))) = []
   \<and> nextStartTime (snd (onmessage 5 (no_content\<lparr>interrupted := True\<rparr>)
        (snd (onmessage 5 (no_content\<lparr>audioData := Some (str ''AAA='')\<rparr>) live_session)))) = 0
   \<and> calls (snd (onmessage 5 (no_content\<lparr>interrupted := True\<rparr>)
        (snd (onmessage 5 (no_content\<lparr>audioData := Some (str ''AAA='')\<rparr>) live_session))))
       = [Connect 3, SourceStart 6 5 \<lparr>sampleRate = 24000, frames = 1, channels = [[0]]\<rparr>, SourceStop 6]"
proof -
  let ?s5 = "snd (onmessage 5 (no_content\<lparr>audioData := Some (str ''AAA='')\<rparr>) live_session)"
  have h1: "interrupted (no_content\<lparr>interrupted := True\<rparr>)" by simp
  have h2: "onmessage 5 (no_content\<lparr>interrupted := True, interrupted := False\<rparr>) ?s5 = (None, ?s5)"
    using onmessage_marker[of 5 False ?s5] by simp
  have src: "sources ?s5 = [6]"
    and cl: "calls ?s5 = [Connect 3, SourceStart 6 5 \<lparr>sampleRate = 24000, frames = 1, channels = [[0]]\<rparr>]"
    by (simp_all only: live_session_after_fragment) simp_all
  from interruption_stops_playback[OF h1 h2]
  have "onmessage 5 (no_content\<lparr>interrupted := True\<rparr>) ?s5 =
      (None, ?s5\<lparr>calls := calls ?s5 @ map SourceStop (sources ?s5), sources := [], nextStartTime := 0\<rparr>)"
    by blast
  then have "sources (snd (onmessage 5 (no_content\<lparr>interrupted := True\<rparr>) ?s5)) = []"
    and "nextStartTime (snd (onmessage 5 (no_content\<lparr>interrupted := True\<rparr>) ?s5)) = 0"
    and "calls (snd (onmessage 5 (no_content\<lparr>interrupted := True\<rparr>) ?s5))
       = [Connect 3, SourceStart 6 5 \<lparr>sampleRate = 24000, frames = 1, channels = [[0]]\<rparr>, SourceStop 6]"
    by (simp_all add: src cl)
  with h1 h2 src show ?thesis by blast
qed

text \<open>
  Claim C2 as stated fails: after the interruption at device time \<open>5\<close> the clock is
  \<open>0\<close>.
\<close>

theorem interruption_clock_counterexample:
  "sources (snd (onmessage 5 (no_content\<lparr>audioData := Some (str ''AAA='')\<rparr>) live_session)) = [6]
   \<and> sources (snd (onmessage 5 (no_content\<lparr>interrupted := True\<rparr>)
        (snd (onmessage 5 (no_content\<lparr>audioData := Some (str ''AAA='')\<rparr>) live_session)))) = []
   \<and> nextStartTime (snd (onmessage 5 (no_content\<lparr>interrupted := True\<rparr>)
        (snd (onmessage 5 (no_content\<lparr>audioData := Some (str ''AAA='')\<rparr>) live_session)))) = 0
   \<and> nextStartTime (snd (onmessage 5 (no_content\<lparr>interrupted := True\<rparr>)
        (snd (onmessage 5 (no_content\<lparr>audioData := Some (str ''AAA='')\<rparr>) live_session)))) \<noteq> 5"
  by (simp only: live_session_after_fragment onmessage_marker) (simp add: handle_interrupted_def)

lemma handle_audio_clock:
  assumes "ctx_output s = Some c"
  shows "max (nextStartTime s) now \<le> nextStartTime (snd (handle_audio now a s))"
proof (cases "decode a")
  case (Inl e)
  then show ?thesis using assms by (simp add: handle_audio_def)
next
  case (Inr bytes)
  show ?thesis
  proof (cases "decodeAudioData bytes 24000 1")
    case (Inl e)
    then show ?thesis using assms Inr by (simp add: handle_audio_def)
  next
    case buf: (Inr buf)
    then show ?thesis
      using assms Inr duration_nonneg[of buf] by (simp add: handle_audio_def Let_def)
  qed
qed

lemma onmessage_clock:
  assumes "\<not> interrupted m" and "audioData m = Some a" and "a \<noteq> []" and "ctx_output s = Some c"
  shows "max (nextStartTime s) now \<le> nextStartTime (snd (onmessage now m s))"
proof -
  have p: "playable m = Some a" using assms(2,3) by (simp add: playable_def)
  have "ctx_output (before_audio m s) = Some c" using assms(4) by (simp add: before_audio_playback)
  from handle_audio_clock[OF this, of now a]
  have "max (nextStartTime s) now \<le> nextStartTime (snd (handle_audio now a (before_audio m s)))"
    by (simp add: before_audio_playback)
  moreover have "snd (onmessage now m s) = snd (handle_audio now a (before_audio m s))"
    using assms(1) by (simp add: onmessage_audio[OF p] split: prod.splits option.splits)
  ultimately show ?thesis by simp
qed

lemma onmessage_interrupted_clock:
  assumes "interrupted m" and "fst (onmessage now m s) = None"
  shows "nextStartTime (snd (onmessage now m s)) = 0"
proof (cases "playable m")
  case None
  then show ?thesis using assms(1) by (simp add: onmessage_no_audio handle_interrupted_def)
next
  case (Some a)
  then show ?thesis
    using assms
    by (auto simp: onmessage_audio handle_interrupted_def split: prod.splits option.splits)
qed

text \<open>
  Claim C3, amended. While the output context exists, after a message that is not an
  interruption and carries an audio fragment the clock is at least the device time and at
  least what it was: it is first set to \<open>max nextStartTime now\<close>, and when the fragment
  decodes it is advanced by the duration of the buffer, which is not negative. A message
  with the interruption flag whose handler ends without an exception sets the clock to
  \<open>0\<close>, and so does a start that obtains the microphone; a start that is denied it leaves
  the clock as it is.
\<close>

theorem playback_clock_catches_up_when_scheduling:
  "(\<not> interrupted m \<and> audioData m = Some a \<and> a \<noteq> [] \<and> ctx_output s = Some c \<longrightarrow>
        now \<le> nextStartTime (snd (onmessage now m s))
      \<and> nextStartTime s \<le> nextStartTime (snd (onmessage now m s)))
   \<and> (\<not> interrupted m \<and> audioData m = Some a \<and> a \<noteq> [] \<and> ctx_output s = Some c
        \<and> decode a = Inr bytes \<and> decodeAudioData bytes 24000 1 = Inr buf \<longrightarrow>
        nextStartTime (snd (onmessage now m s)) = max (nextStartTime s) now + duration buf
      \<and> 0 \<le> duration buf)
   \<and> (interrupted m \<and> fst (onmessage now m s) = None \<longrightarrow>
        nextStartTime (snd (onmessage now m s)) = 0)
   \<and> nextStartTime (handleStart (Inr tracks) s) = 0
   \<and> nextStartTime (handleStart (Inl e) s) = nextStartTime s"
proof (intro conjI impI)
  assume a: "\<not> interrupted m \<and> audioData m = Some a \<and> a \<noteq> [] \<and> ctx_output s = Some c"
  then have "max (nextStartTime s) now \<le> nextStartTime (snd (onmessage now m s))"
    using onmessage_clock[of m a s c now] by simp
  then show "now \<le> nextStartTime (snd (onmessage now m s))"
    and "nextStartTime s \<le> nextStartTime (snd (onmessage now m s))"
    by simp_all
next
  assume a: "\<not> interrupted m \<and> audioData m = Some a \<and> a \<noteq> [] \<and> ctx_output s = Some c
        \<and> decode a = Inr bytes \<and> decodeAudioData bytes 24000 1 = Inr buf"
  then show "nextStartTime (snd (onmessage now m s)) = max (nextStartTime s) now + duration buf"
    using onmessage_scheduled[of m a s c bytes buf now] by simp
  show "0 \<le> duration buf" by (rule duration_nonneg)
next
  assume "interrupted m \<and> fst (onmessage now m s) = None"
  then show "nextStartTime (snd (onmessage now m s)) = 0"
    using onmessage_interrupted_clock by blast
next
  show "nextStartTime (handleStart (Inr tracks) s) = 0"
    by (simp add: handleStart_def Let_def split: option.splits)
next
  show "nextStartTime (handleStart (Inl e) s) = nextStartTime s"
    by (simp add: handleStart_def)
qed

text \<open>
  A fragment and an interruption at device time \<open>5\<close>.
\<close>

theorem playback_clock_catches_up_when_scheduling_witness:
  "\<not> interrupted (no_content\<lparr>audioData := Some (str ''AAA='')\<rparr>)
   \<and> audioData (no_content\<lparr>audioData := Some (str ''AAA='')\<rparr>) = Some (str ''AAA='')
   \<and> str ''AAA='' \<noteq> []
   \<and> ctx_output live_session = Some 2
   \<and> decode (str ''AAA='') = Inr [0, 0]
   \<and> decodeAudioData [0, 0] 24000 1 = Inr \<lparr>sampleRate = 24000, frames = 1, channels = [[0]]\<rparr>
   \<and> 5 \<le> nextStartTime (snd (onmessage 5 (no_content\<lparr>audioData := Some (str ''AAA='')\<rparr>) live_session))
   \<and> nextStartTime (snd (onmessage 5 (no_content\<lparr>audioData := Some (str ''AAA='')\<rparr>) live_session))
       = 5 + 1 / 24000
   \<and> interrupted (no_content\<lparr>interrupted := True\<rparr>)
   \<and> fst (onmessage 5 (no_content\<lparr>interrupted := True\<rparr>) live_session) = None
   \<and> nextStartTime (snd (onmessage 5 (no_content\<lparr>interrupted := True\<rparr>) live_session)) = 0"
proof -
  let ?m = "no_content\<lparr>audioData := Some (str ''AAA='')\<rparr>"
  let ?buf = "\<lparr>sampleRate = 24000, frames = 1, channels = [[0]]\<rparr>"
  have h: "\<not> interrupted ?m \<and> audioData ?m = Some (str ''AAA='') \<and> str ''AAA='' \<noteq> []
      \<and> ctx_output live_session = Some 2"
    by (simp add: no_content_def live_session_eq str_def)
  have d: "decode (str ''AAA='') = Inr [0, 0] \<and> decodeAudioData [0, 0] 24000 1 = Inr ?buf"
    using decode_two_bytes decodeAudioData_one_frame by simp
  have i: "interrupted (no_content\<lparr>interrupted := True\<rparr>)
      \<and> fst (onmessage 5 (no_content\<lparr>interrupted := True\<rparr>) live_session) = None"
    by (simp add: onmessage_marker)
  have c: "nextStartTime live_session = 0" by (simp add: live_session_eq)
  note t1 = playback_clock_catches_up_when_scheduling[of ?m "str ''AAA=''" live_session 2 5 "[0, 0]" ?buf]
  from t1 h d have "5 \<le> nextStartTime (snd (onmessage 5 ?m live_session))
      \<and> nextStartTime (snd (onmessage 5 ?m live_session)) = max (nextStartTime live_session) 5 + duration ?buf"
    by blast
  then have 1: "5 \<le> nextStartTime (snd (onmessage 5 ?m live_session))
      \<and> nextStartTime (snd (onmessage 5 ?m live_session)) = 5 + 1 / 24000"
    by (simp add: c duration_def)
  note t2 = playback_clock_catches_up_when_scheduling[of "no_content\<lparr>interrupted := True\<rparr>" _ live_session _ 5]
  from t2 i have 2: "nextStartTime (snd (onmessage 5 (no_content\<lparr>interrupted := True\<rparr>) live_session)) = 0"
    by blast
  show ?thesis using h d i 1 2 by blast
qed

text \<open>
  Claim C3 as stated fails: in an active session, after a transcription message or an
  interruption at device time \<open>5\<close> the clock is \<open>0\<close>.
\<close>

theorem playback_clock_lags_counterexample:
  "isSessionActive live_session
   \<and> nextStartTime (snd (onmessage 5 (no_content\<lparr>inputTranscription := Some (Some (str ''hi''))\<rparr>) live_session))
       = 0
   \<and> \<not> 5 \<le> nextStartTime (snd (onmessage 5 (no_content\<lparr>inputTranscription := Some (Some (str ''hi''))\<rparr>)
        live_session))
   \<and> nextStartTime (snd (onmessage 5 (no_content\<lparr>interrupted := True\<rparr>) live_session)) = 0
   \<and> nextStartTime (snd (onmessage 5 (no_content\<lparr>interrupted := True\<rparr>) live_session)) \<noteq> 5"
  by (simp add: handle_interrupted_def onmessage_no_audio playable_def
      before_audio_def handle_transcription_def no_content_def live_session_eq)

end
